theory Spec2Isabelle
  imports Main "HOL-Library.AList"
begin

section \<open>pip-wrapper: the manifest reconciliation of \<open>pip_wrapper/cli.py\<close>\<close>

text \<open>
  The development embeds \<open>src/pip_wrapper/cli.py\<close>. A Python \<open>str\<close> is a \<open>string\<close>
  (one \<open>char\<close> for each code point below 256). A Python \<open>dict\<close> is an association
  list in insertion order: \<open>d[k] = v\<close> is \<open>AList.update k v\<close> (the value is replaced in
  place, a new key goes to the end), \<open>k in d\<close> and \<open>d[k]\<close> read \<open>map_of\<close>, and
  \<open>d.pop(k)\<close> is \<open>AList.delete k\<close>. Every exception the code can raise is a value of
  \<open>error\<close>.
\<close>

subsection \<open>Exceptions and TOML values\<close>

datatype error =
    OSError
  | TomlDecodeError
  | ValueError
  | TypeError
  | AttributeError
  | KeyError
  | IndexError

text \<open>
  What \<open>toml.load\<close> returns: tables are dicts, arrays are lists. A float and a date
  carry the text Python's \<open>str()\<close> prints for them; nothing else of them is used.
\<close>

datatype toml =
    TStr string
  | TInt int
  | TBool bool
  | TFloat string
  | TDate string
  | TArr "toml list"
  | TTab "(string \<times> toml) list"

subsection \<open>Strings\<close>

text \<open>\<open>sub in s\<close> on two strings: \<open>sub\<close> occurs in \<open>s\<close>.\<close>

fun str_contains :: "string \<Rightarrow> string \<Rightarrow> bool" where
  "str_contains sub [] = (sub = [])"
| "str_contains sub (c # cs) = (take (length sub) (c # cs) = sub \<or> str_contains sub cs)"

text \<open>
  \<open>line.split("==")\<close>: the pieces between the occurrences of the separator, found
  from left to right without overlap. The first argument holds the current piece,
  reversed.
\<close>

fun split_eqeq :: "string \<Rightarrow> string \<Rightarrow> string list" where
  "split_eqeq acc (c # d # cs) =
     (if c = CHR ''='' \<and> d = CHR ''='' then rev acc # split_eqeq [] cs
      else split_eqeq (c # acc) (d # cs))"
| "split_eqeq acc [c] = [rev (c # acc)]"
| "split_eqeq acc [] = [rev acc]"

text \<open>
  \<open>str.splitlines()\<close>: a line ends at \<open>\n\<close>, \<open>\r\<close>, \<open>\r\n\<close>, \<open>\v\<close>, \<open>\f\<close>,
  \<open>\x1c\<close>, \<open>\x1d\<close>, \<open>\x1e\<close> and \<open>\x85\<close> (and at U+2028 and U+2029, which a \<open>char\<close>
  cannot hold); the line ends are dropped and no empty last line is produced.
\<close>

definition is_line_boundary :: "char \<Rightarrow> bool" where
  "is_line_boundary c \<longleftrightarrow>
     c \<in> {CHR 0x0A, CHR 0x0D, CHR 0x0B, CHR 0x0C, CHR 0x1C, CHR 0x1D, CHR 0x1E, CHR 0x85}"

fun splitlines_acc :: "string \<Rightarrow> string \<Rightarrow> string list" where
  "splitlines_acc acc (c # d # cs) =
     (if c = CHR 0x0D \<and> d = CHR 0x0A then rev acc # splitlines_acc [] cs
      else if is_line_boundary c then rev acc # splitlines_acc [] (d # cs)
      else splitlines_acc (c # acc) (d # cs))"
| "splitlines_acc acc [c] = (if is_line_boundary c then [rev acc] else [rev (c # acc)])"
| "splitlines_acc acc [] = (if acc = [] then [] else [rev acc])"

definition splitlines :: "string \<Rightarrow> string list" where
  "splitlines s = splitlines_acc [] s"

subsection \<open>The installed set: \<open>get_installed_packages\<close>\<close>

text \<open>
  \<open>subprocess.run\<close> either raises (the interpreter cannot be started) or returns a
  completed process; the code reads only its \<open>stdout\<close>, never its return code.
\<close>

record completed_process =
  returncode :: int
  stdout :: string
  stderr :: string

type_synonym run_result = "error + completed_process"

type_synonym packages = "(string \<times> string) list"

text \<open>
  The loop over the lines. \<open>name, version = line.split("==")\<close> raises \<open>ValueError\<close>
  unless the split has exactly two pieces.
\<close>

fun freeze_lines :: "string list \<Rightarrow> packages \<Rightarrow> error + packages" where
  "freeze_lines [] packages = Inr packages"
| "freeze_lines (line # lines) packages =
     (if str_contains ''=='' line then
        (case split_eqeq [] line of
           [name, version] \<Rightarrow> freeze_lines lines (AList.update name version packages)
         | _ \<Rightarrow> Inl ValueError)
      else freeze_lines lines packages)"

definition get_installed_packages :: "run_result \<Rightarrow> error + packages" where
  "get_installed_packages run =
     (case run of
        Inl e \<Rightarrow> Inl e
      | Inr result \<Rightarrow> freeze_lines (splitlines (stdout result)) [])"

subsection \<open>The operations of Python on a loaded value\<close>

text \<open>
  The code never checks what \<open>toml.load\<close> gave it, so each operation is modelled on
  every kind of value, with the exception Python raises where the value does not
  support it.
\<close>

text \<open>\<open>package in dependencies\<close>\<close>

fun py_contains :: "toml \<Rightarrow> string \<Rightarrow> error + bool" where
  "py_contains (TTab kvs) k = Inr (map_of kvs k \<noteq> None)"
| "py_contains (TStr s) k = Inr (str_contains k s)"
| "py_contains (TArr xs) k = Inr (TStr k \<in> set xs)"
| "py_contains _ k = Inl TypeError"

text \<open>\<open>dependencies[package]\<close>\<close>

fun py_getitem :: "toml \<Rightarrow> string \<Rightarrow> error + toml" where
  "py_getitem (TTab kvs) k = (case map_of kvs k of None \<Rightarrow> Inl KeyError | Some v \<Rightarrow> Inr v)"
| "py_getitem _ k = Inl TypeError"

text \<open>\<open>dependencies[package] = version\<close>\<close>

fun py_setitem :: "toml \<Rightarrow> string \<Rightarrow> toml \<Rightarrow> error + toml" where
  "py_setitem (TTab kvs) k v = Inr (TTab (AList.update k v kvs))"
| "py_setitem _ k v = Inl TypeError"

text \<open>\<open>for pkg in dependencies\<close>: the keys of a dict, the characters of a string.\<close>

fun py_iter :: "toml \<Rightarrow> error + toml list" where
  "py_iter (TTab kvs) = Inr (map (\<lambda>kv. TStr (fst kv)) kvs)"
| "py_iter (TStr s) = Inr (map (\<lambda>c. TStr [c]) s)"
| "py_iter (TArr xs) = Inr xs"
| "py_iter _ = Inl TypeError"

text \<open>
  \<open>pkg not in current_packages\<close>, a lookup in a dict whose keys are strings: a list
  or a dict cannot be hashed, any other value that is not a string is not a key.
\<close>

fun not_in_packages :: "toml \<Rightarrow> packages \<Rightarrow> error + bool" where
  "not_in_packages (TStr k) current_packages = Inr (map_of current_packages k = None)"
| "not_in_packages (TArr xs) current_packages = Inl TypeError"
| "not_in_packages (TTab kvs) current_packages = Inl TypeError"
| "not_in_packages _ current_packages = Inr True"

text \<open>\<open>list.pop(i)\<close>: a negative index counts from the end.\<close>

definition list_pop :: "toml list \<Rightarrow> int \<Rightarrow> error + toml list" where
  "list_pop xs i =
     (let n = int (length xs); j = (if i < 0 then i + n else i)
      in if 0 \<le> j \<and> j < n then Inr (take (nat j) xs @ drop (Suc (nat j)) xs)
         else Inl IndexError)"

text \<open>
  \<open>dependencies.pop(pkg)\<close>: a dict removes the key, a list takes \<open>pkg\<close> as an index
  (\<open>True\<close> is 1), no other value has a \<open>pop\<close>.
\<close>

fun py_pop :: "toml \<Rightarrow> toml \<Rightarrow> error + toml" where
  "py_pop (TTab kvs) (TStr k) =
     (if map_of kvs k = None then Inl KeyError else Inr (TTab (AList.delete k kvs)))"
| "py_pop (TTab kvs) (TArr xs) = Inl TypeError"
| "py_pop (TTab kvs) (TTab kvs') = Inl TypeError"
| "py_pop (TTab kvs) _ = Inl KeyError"
| "py_pop (TArr xs) (TInt i) =
     (case list_pop xs i of Inl e \<Rightarrow> Inl e | Inr ys \<Rightarrow> Inr (TArr ys))"
| "py_pop (TArr xs) (TBool b) =
     (case list_pop xs (if b then 1 else 0) of Inl e \<Rightarrow> Inl e | Inr ys \<Rightarrow> Inr (TArr ys))"
| "py_pop (TArr xs) _ = Inl TypeError"
| "py_pop _ _ = Inl AttributeError"

subsection \<open>The process: manifest file and console\<close>

text \<open>
  The file \<open>pyproject.toml\<close> holds a document that \<open>toml.load\<close> reads, or text that
  it rejects. The serialisation itself is not part of this repository: the file is
  modelled by the document it holds, so \<open>toml.load\<close> after \<open>toml.dump\<close> returns the
  document that was written, key order included, and two files are the same bytes
  when they hold the same document. Opening the file can fail; a write that has
  started is taken to finish.
\<close>

datatype file_content = Parsed toml | Unparsable string

text \<open>
  A printed line is recorded as the statement that printed it, with the values
  formatted into it.
\<close>

datatype message =
    Sys_prefix string \<comment> \<open>\<open>[DEBUG] sys.prefix: ...\<close>\<close>
  | Sys_base_prefix string \<comment> \<open>\<open>[DEBUG] sys.base_prefix: ...\<close>\<close>
  | Checking \<comment> \<open>\<open>[DEBUG] Checking for pyproject.toml...\<close>\<close>
  | Creating \<comment> \<open>\<open>[DEBUG] Creating pyproject.toml...\<close>\<close>
  | Created \<comment> \<open>\<open>[DEBUG] Created pyproject.toml.\<close>\<close>
  | Already_exists \<comment> \<open>\<open>[DEBUG] pyproject.toml already exists.\<close>\<close>
  | Already_listed string string \<comment> \<open>\<open>[DEBUG] p==v is already listed in pyproject.toml.\<close>\<close>
  | Updating string toml string \<comment> \<open>\<open>[DEBUG] Updating p version from old to v.\<close>\<close>
  | Adding string string \<comment> \<open>\<open>[DEBUG] Adding p==v to pyproject.toml.\<close>\<close>
  | Reconciling \<comment> \<open>\<open>[DEBUG] Reconciling installed packages...\<close>\<close>
  | Adding_Updating string string \<comment> \<open>\<open>[DEBUG] Adding/Updating p==v in pyproject.toml.\<close>\<close>
  | Removing toml \<comment> \<open>\<open>[DEBUG] Removing pkg from pyproject.toml.\<close>\<close>
  | Reconciliation_complete \<comment> \<open>\<open>[DEBUG] Reconciliation complete.\<close>\<close>
  | Change_detected \<comment> \<open>\<open>[DEBUG] Filesystem change detected. Triggering reconciliation...\<close>\<close>
  | Monitoring string \<comment> \<open>\<open>[DEBUG] Monitoring dir for changes...\<close>\<close>
  | Must_run_in_venv \<comment> \<open>\<open>Error: This script must be run inside a virtual environment.\<close>\<close>

record world =
  pyproject :: "file_content option"
  readable :: bool
  writable :: bool
  console :: "message list"

definition debug :: "message \<Rightarrow> world \<Rightarrow> world" where
  "debug message w = w\<lparr>console := console w @ [message]\<rparr>"

definition py_print :: "message \<Rightarrow> world \<Rightarrow> world" where
  "py_print message w = w\<lparr>console := console w @ [message]\<rparr>"

definition debugs :: "message list \<Rightarrow> world \<Rightarrow> world" where
  "debugs messages w = w\<lparr>console := console w @ messages\<rparr>"

text \<open>\<open>with open(PYPROJECT_FILE, "r") as f: project_data = toml.load(f)\<close>\<close>

definition read_pyproject :: "world \<Rightarrow> error + toml" where
  "read_pyproject w =
     (case pyproject w of
        None \<Rightarrow> Inl OSError
      | Some content \<Rightarrow>
          if \<not> readable w then Inl OSError
          else (case content of Parsed doc \<Rightarrow> Inr doc | Unparsable text \<Rightarrow> Inl TomlDecodeError))"

text \<open>\<open>with open(PYPROJECT_FILE, "w") as f: toml.dump(project_data, f)\<close>\<close>

definition write_pyproject :: "toml \<Rightarrow> world \<Rightarrow> error option \<times> world" where
  "write_pyproject project_data w =
     (if writable w then (None, w\<lparr>pyproject := Some (Parsed project_data)\<rparr>)
      else (Some OSError, w))"

subsection \<open>\<open>initialize_pyproject\<close>\<close>

definition project_data_default :: toml where
  "project_data_default =
     TTab [(''tool'', TTab [(''custom'', TTab [(''dependencies'', TTab [])])]),
           (''build-system'',
              TTab [(''requires'', TArr [TStr ''setuptools'', TStr ''wheel'']),
                    (''build-backend'', TStr ''setuptools.build_meta'')])]"

definition initialize_pyproject :: "world \<Rightarrow> error option \<times> world" where
  "initialize_pyproject w =
     (let w1 = debug Checking w in
      if pyproject w1 = None then
        (case write_pyproject project_data_default (debug Creating w1) of
           (Some e, w2) \<Rightarrow> (Some e, w2)
         | (None, w2) \<Rightarrow> (None, debug Created w2))
      else (None, debug Already_exists w1))"

subsection \<open>Reaching \<open>tool.custom.dependencies\<close>\<close>

text \<open>
  \<open>d.setdefault(k, {})\<close> returns the object stored under \<open>k\<close>, storing an empty dict
  first when \<open>k\<close> is missing, and raises \<open>AttributeError\<close> when \<open>d\<close> is not a dict.
  What the caller then does to the returned object is seen through \<open>d\<close>: the model
  stores the changed object back under \<open>k\<close>. The messages printed on the way are
  returned with the result.
\<close>

type_synonym 'a printing = "message list \<times> (error + 'a)"

definition setdefault_in :: "string \<Rightarrow> (toml \<Rightarrow> toml printing) \<Rightarrow> toml \<Rightarrow> toml printing" where
  "setdefault_in k f d =
     (case d of
        TTab kvs \<Rightarrow>
          (case f (case map_of kvs k of Some child \<Rightarrow> child | None \<Rightarrow> TTab []) of
             (out, Inl e) \<Rightarrow> (out, Inl e)
           | (out, Inr child') \<Rightarrow> (out, Inr (TTab (AList.update k child' kvs))))
      | _ \<Rightarrow> ([], Inl AttributeError))"

text \<open>
  \<open>dependencies = project_data.setdefault("tool", {}).setdefault("custom", {})
  .setdefault("dependencies", {})\<close>, followed by \<open>f\<close> on \<open>dependencies\<close>.
\<close>

definition with_dependencies :: "(toml \<Rightarrow> toml printing) \<Rightarrow> toml \<Rightarrow> toml printing" where
  "with_dependencies f project_data =
     setdefault_in ''tool'' (setdefault_in ''custom'' (setdefault_in ''dependencies'' f))
       project_data"

subsection \<open>\<open>update_pyproject\<close>\<close>

text \<open>The branches on \<open>package in dependencies\<close> and \<open>dependencies[package] == version\<close>.\<close>

definition set_dependency :: "string \<Rightarrow> string \<Rightarrow> toml \<Rightarrow> toml printing" where
  "set_dependency package version dependencies =
     (case py_contains dependencies package of
        Inl e \<Rightarrow> ([], Inl e)
      | Inr True \<Rightarrow>
          (case py_getitem dependencies package of
             Inl e \<Rightarrow> ([], Inl e)
           | Inr old \<Rightarrow>
               if old = TStr version then ([Already_listed package version], Inr dependencies)
               else ([Updating package old version],
                     py_setitem dependencies package (TStr version)))
      | Inr False \<Rightarrow> ([Adding package version], py_setitem dependencies package (TStr version)))"

definition update_pyproject :: "string \<Rightarrow> string \<Rightarrow> world \<Rightarrow> error option \<times> world" where
  "update_pyproject package version w =
     (case initialize_pyproject w of
        (Some e, w1) \<Rightarrow> (Some e, w1)
      | (None, w1) \<Rightarrow>
          (case read_pyproject w1 of
             Inl e \<Rightarrow> (Some e, w1)
           | Inr project_data \<Rightarrow>
               (case with_dependencies (set_dependency package version) project_data of
                  (out, Inl e) \<Rightarrow> (Some e, debugs out w1)
                | (out, Inr project_data') \<Rightarrow> write_pyproject project_data' (debugs out w1))))"

subsection \<open>\<open>reconcile_installed_packages\<close>\<close>

text \<open>
  The first loop, \<open>for package, version in current_packages.items()\<close>, with its test
  \<open>package not in dependencies or dependencies[package] != version\<close>.
\<close>

definition needs_update :: "toml \<Rightarrow> string \<Rightarrow> string \<Rightarrow> error + bool" where
  "needs_update dependencies package version =
     (case py_contains dependencies package of
        Inl e \<Rightarrow> Inl e
      | Inr False \<Rightarrow> Inr True
      | Inr True \<Rightarrow>
          (case py_getitem dependencies package of
             Inl e \<Rightarrow> Inl e
           | Inr old \<Rightarrow> Inr (old \<noteq> TStr version)))"

fun add_or_update :: "packages \<Rightarrow> toml \<Rightarrow> toml printing" where
  "add_or_update [] dependencies = ([], Inr dependencies)"
| "add_or_update ((package, version) # rest) dependencies =
     (case needs_update dependencies package version of
        Inl e \<Rightarrow> ([], Inl e)
      | Inr False \<Rightarrow> add_or_update rest dependencies
      | Inr True \<Rightarrow>
          (case py_setitem dependencies package (TStr version) of
             Inl e \<Rightarrow> ([Adding_Updating package version], Inl e)
           | Inr dependencies' \<Rightarrow>
               (case add_or_update rest dependencies' of
                  (out, r) \<Rightarrow> (Adding_Updating package version # out, r))))"

text \<open>\<open>to_remove = [pkg for pkg in dependencies if pkg not in current_packages]\<close>\<close>

fun not_installed :: "toml list \<Rightarrow> packages \<Rightarrow> error + toml list" where
  "not_installed [] current_packages = Inr []"
| "not_installed (pkg # pkgs) current_packages =
     (case not_in_packages pkg current_packages of
        Inl e \<Rightarrow> Inl e
      | Inr keep \<Rightarrow>
          (case not_installed pkgs current_packages of
             Inl e \<Rightarrow> Inl e
           | Inr rest \<Rightarrow> Inr (if keep then pkg # rest else rest)))"

definition to_remove :: "toml \<Rightarrow> packages \<Rightarrow> error + toml list" where
  "to_remove dependencies current_packages =
     (case py_iter dependencies of
        Inl e \<Rightarrow> Inl e
      | Inr pkgs \<Rightarrow> not_installed pkgs current_packages)"

text \<open>The second loop, \<open>for pkg in to_remove: dependencies.pop(pkg)\<close>.\<close>

fun remove_all :: "toml list \<Rightarrow> toml \<Rightarrow> toml printing" where
  "remove_all [] dependencies = ([], Inr dependencies)"
| "remove_all (pkg # pkgs) dependencies =
     (case py_pop dependencies pkg of
        Inl e \<Rightarrow> ([Removing pkg], Inl e)
      | Inr dependencies' \<Rightarrow>
          (case remove_all pkgs dependencies' of (out, r) \<Rightarrow> (Removing pkg # out, r)))"

text \<open>Both loops, on the object \<open>dependencies\<close>.\<close>

definition sync_dependencies :: "packages \<Rightarrow> toml \<Rightarrow> toml printing" where
  "sync_dependencies current_packages dependencies =
     (case add_or_update current_packages dependencies of
        (out, Inl e) \<Rightarrow> (out, Inl e)
      | (out, Inr dependencies1) \<Rightarrow>
          (case to_remove dependencies1 current_packages of
             Inl e \<Rightarrow> (out, Inl e)
           | Inr pkgs \<Rightarrow>
               (case remove_all pkgs dependencies1 of (out', r) \<Rightarrow> (out @ out', r))))"

definition reconcile_installed_packages :: "run_result \<Rightarrow> world \<Rightarrow> error option \<times> world" where
  "reconcile_installed_packages run w =
     (case initialize_pyproject (debug Reconciling w) of
        (Some e, w1) \<Rightarrow> (Some e, w1)
      | (None, w1) \<Rightarrow>
          (case get_installed_packages run of
             Inl e \<Rightarrow> (Some e, w1)
           | Inr current_packages \<Rightarrow>
               (case read_pyproject w1 of
                  Inl e \<Rightarrow> (Some e, w1)
                | Inr project_data \<Rightarrow>
                    (case with_dependencies (sync_dependencies current_packages) project_data of
                       (out, Inl e) \<Rightarrow> (Some e, debugs out w1)
                     | (out, Inr project_data') \<Rightarrow>
                         (case write_pyproject project_data' (debugs out w1) of
                            (Some e, w2) \<Rightarrow> (Some e, w2)
                          | (None, w2) \<Rightarrow> (None, debug Reconciliation_complete w2))))))"

subsection \<open>\<open>is_virtual_env\<close> and the start of \<open>monitor_virtualenv\<close>\<close>

text \<open>
  The attributes of \<open>sys\<close> that the check reads. \<open>base_prefix\<close> and \<open>real_prefix\<close>
  may be missing (\<open>hasattr\<close>); formatting a missing \<open>sys.base_prefix\<close> into the
  second debug line raises \<open>AttributeError\<close>.
\<close>

record sys_info =
  sys_prefix :: string
  sys_base_prefix :: "string option"
  sys_real_prefix :: "string option"

definition is_virtual_env :: "sys_info \<Rightarrow> world \<Rightarrow> (error + bool) \<times> world" where
  "is_virtual_env sys w =
     (let w1 = debug (Sys_prefix (sys_prefix sys)) w in
      case sys_base_prefix sys of
        None \<Rightarrow> (Inl AttributeError, w1)
      | Some base_prefix \<Rightarrow>
          (Inr (sys_real_prefix sys \<noteq> None \<or> base_prefix \<noteq> sys_prefix sys),
           debug (Sys_base_prefix base_prefix) w1))"

text \<open>
  \<open>monitor_virtualenv\<close> up to the point where the observer and the timer thread have
  been started on the directory \<open>sysconfig.get_paths()["purelib"]\<close>: it has left with
  \<open>sys.exit(1)\<close>, it has raised, or it is watching.
\<close>

datatype monitor = Exited int | Raised error | Watching string

definition monitor_virtualenv :: "sys_info \<Rightarrow> string \<Rightarrow> world \<Rightarrow> monitor \<times> world" where
  "monitor_virtualenv sys site_packages_dir w =
     (case is_virtual_env sys w of
        (Inl e, w1) \<Rightarrow> (Raised e, w1)
      | (Inr False, w1) \<Rightarrow> (Exited 1, py_print Must_run_in_venv w1)
      | (Inr True, w1) \<Rightarrow> (Watching site_packages_dir, debug (Monitoring site_packages_dir) w1))"

subsection \<open>The two triggers\<close>

text \<open>A watchdog event: its type, its path, and whether the path is a directory.\<close>

datatype fs_event = FileSystemEvent string string bool

text \<open>
  \<open>InstallEventHandler.on_any_event\<close>. The second argument is what the listing
  command returns when this call runs it.
\<close>

definition on_any_event :: "fs_event \<Rightarrow> run_result \<Rightarrow> world \<Rightarrow> error option \<times> world" where
  "on_any_event event run w = reconcile_installed_packages run (debug Change_detected w)"

text \<open>
  The observer thread calls the handler once for every event, one call after the
  other. What the observer does once the handler has raised is not part of this
  repository; the model stops there.
\<close>

fun dispatch_events :: "(fs_event \<times> run_result) list \<Rightarrow> world \<Rightarrow> error option \<times> world" where
  "dispatch_events [] w = (None, w)"
| "dispatch_events ((event, run) # events) w =
     (case on_any_event event run w of
        (Some e, w') \<Rightarrow> (Some e, w')
      | (None, w') \<Rightarrow> dispatch_events events w')"

text \<open>
  \<open>periodic_reconcile\<close>, the target of the timer thread: \<open>while True: time.sleep(10);
  reconcile_installed_packages()\<close>. The loop has no exit but an exception. The list
  holds what the listing command returns at each of the first ticks; the result
  \<open>None\<close> says that the loop is still running after them, \<open>Some e\<close> that the exception
  \<open>e\<close> has left the loop and ended the thread.
\<close>

fun periodic_reconcile :: "run_result list \<Rightarrow> world \<Rightarrow> error option \<times> world" where
  "periodic_reconcile [] w = (None, w)"
| "periodic_reconcile (run # ticks) w =
     (case reconcile_installed_packages run w of
        (Some e, w') \<Rightarrow> (Some e, w')
      | (None, w') \<Rightarrow> periodic_reconcile ticks w')"

text \<open>The number of reconciliations started so far, read off the console.\<close>

definition reconciliations :: "world \<Rightarrow> nat" where
  "reconciliations w = length (filter (\<lambda>message. message = Reconciling) (console w))"

subsection \<open>The monitor while it watches\<close>

text \<open>
  The rest of \<open>monitor_virtualenv\<close>: the observer thread calls \<open>on_any_event\<close> at
  every filesystem event, the timer thread runs \<open>periodic_reconcile\<close>, and the main
  thread waits in \<open>observer.join()\<close>. A trigger is a tick of the timer loop or an
  event; each comes with what the listing command returns when its reconciliation
  runs it. The triggers are taken one after the other.
\<close>

datatype trigger = Timer_tick run_result | Fs_event fs_event run_result

text \<open>
  The timer thread runs its loop until an exception of a reconciliation leaves the
  loop; the exception ends that thread and reaches no other.
\<close>

datatype thread = Running | Ended error

record monitor_state =
  files :: world
  timer_thread :: thread

text \<open>
  An exception of the handler is raised to the observer that called it. What the
  observer does then is not part of this repository, so it is the first argument of
  \<open>monitor_run\<close>: \<open>True\<close> when the observer goes on with the next event, \<open>False\<close> when
  it stops, and the model stops with it. A tick finds a loop to run only while the
  timer thread is running.
\<close>

datatype monitor_end = Still_watching | Observer_raised error

fun monitor_run :: "bool \<Rightarrow> trigger list \<Rightarrow> monitor_state \<Rightarrow> monitor_end \<times> monitor_state" where
  "monitor_run observer_resumes [] s = (Still_watching, s)"
| "monitor_run observer_resumes (Timer_tick run # triggers) s =
     (case timer_thread s of
        Ended e \<Rightarrow> monitor_run observer_resumes triggers s
      | Running \<Rightarrow>
          (case reconcile_installed_packages run (files s) of
             (None, w') \<Rightarrow> monitor_run observer_resumes triggers (s\<lparr>files := w'\<rparr>)
           | (Some e, w') \<Rightarrow>
               monitor_run observer_resumes triggers (s\<lparr>files := w', timer_thread := Ended e\<rparr>)))"
| "monitor_run observer_resumes (Fs_event event run # triggers) s =
     (case on_any_event event run (files s) of
        (None, w') \<Rightarrow> monitor_run observer_resumes triggers (s\<lparr>files := w'\<rparr>)
      | (Some e, w') \<Rightarrow>
          if observer_resumes then monitor_run observer_resumes triggers (s\<lparr>files := w'\<rparr>)
          else (Observer_raised e, s\<lparr>files := w'\<rparr>))"

subsection \<open>Reading a manifest\<close>

text \<open>The value stored under a key of a table, and the value at \<open>tool.custom.dependencies\<close>.\<close>

fun get_key :: "string \<Rightarrow> toml \<Rightarrow> toml option" where
  "get_key k (TTab kvs) = map_of kvs k"
| "get_key k _ = None"

definition dependencies_of :: "toml \<Rightarrow> toml option" where
  "dependencies_of project_data =
     (case get_key ''tool'' project_data of
        None \<Rightarrow> None
      | Some tool \<Rightarrow>
          (case get_key ''custom'' tool of
             None \<Rightarrow> None
           | Some custom \<Rightarrow> get_key ''dependencies'' custom))"

text \<open>The name-to-version pairs of a manifest: the entries of its dependency table.\<close>

definition dependency_mapping :: "toml \<Rightarrow> string \<rightharpoonup> toml" where
  "dependency_mapping project_data =
     (case dependencies_of project_data of
        Some (TTab kvs) \<Rightarrow> map_of kvs
      | _ \<Rightarrow> Map.empty)"

text \<open>The value reached from a manifest along a path of keys.\<close>

fun get_path :: "string list \<Rightarrow> toml \<Rightarrow> toml option" where
  "get_path [] v = Some v"
| "get_path (k # ks) v = (case get_key k v of None \<Rightarrow> None | Some child \<Rightarrow> get_path ks child)"

text \<open>Two paths are related when one is an initial part of the other.\<close>

definition related :: "string list \<Rightarrow> string list \<Rightarrow> bool" where
  "related p q \<longleftrightarrow> take (length p) q = p \<or> take (length q) p = q"

text \<open>
  The file that \<open>reconcile_installed_packages\<close> leaves where a manifest \<open>content\<close>
  exists before the call: its three early exits and its single write, without the
  console.
\<close>

definition manifest_after :: "run_result \<Rightarrow> file_content \<Rightarrow> bool \<Rightarrow> bool \<Rightarrow> file_content" where
  "manifest_after run content can_read can_write =
     (case get_installed_packages run of
        Inl e \<Rightarrow> content
      | Inr current_packages \<Rightarrow>
          if \<not> can_read then content
          else (case content of
                  Unparsable text \<Rightarrow> content
                | Parsed project_data \<Rightarrow>
                    (case with_dependencies (sync_dependencies current_packages) project_data of
                       (out, Inl e) \<Rightarrow> content
                     | (out, Inr project_data') \<Rightarrow>
                         if can_write then Parsed project_data' else content)))"

subsection \<open>Example inputs\<close>


definition listing_requests :: completed_process where
  "listing_requests =
     \<lparr>returncode = 0, stdout = ''requests==2.31.0'' @ [CHR 0x0A], stderr = []\<rparr>"

text \<open>A directory without a manifest, and one whose manifest lists flask 2.0.0.\<close>

definition world_empty :: world where
  "world_empty = \<lparr>pyproject = None, readable = True, writable = True, console = []\<rparr>"

definition manifest_flask :: toml where
  "manifest_flask =
     TTab [(''build-system'', TTab [(''requires'', TArr [TStr ''setuptools''])]),
           (''tool'', TTab [(''custom'', TTab [(''dependencies'', TTab [(''flask'', TStr ''2.0.0'')])])])]"

definition world_flask :: world where
  "world_flask =
     \<lparr>pyproject = Some (Parsed manifest_flask), readable = True, writable = True, console = []\<rparr>"

text \<open>The second directory after a call that finds only requests 2.31.0 installed.\<close>

definition world_flask_reconciled :: world where
  "world_flask_reconciled =
     \<lparr>pyproject = Some (Parsed
        (TTab [(''build-system'', TTab [(''requires'', TArr [TStr ''setuptools''])]),
               (''tool'', TTab [(''custom'', TTab [(''dependencies'',
                   TTab [(''requests'', TStr ''2.31.0'')])])])])),
      readable = True, writable = True,
      console = [Reconciling, Checking, Already_exists, Adding_Updating ''requests'' ''2.31.0'',
                 Removing (TStr ''flask''), Reconciliation_complete]\<rparr>"

text \<open>
  The file that a call leaves when it raises: the manifest that was there, or the
  default manifest that \<open>initialize_pyproject\<close> has created (when it could).
\<close>

definition file_after_abort :: "world \<Rightarrow> file_content option" where
  "file_after_abort w =
     (case pyproject w of
        Some content \<Rightarrow> Some content
      | None \<Rightarrow> if writable w then Some (Parsed project_data_default) else None)"

text \<open>
  The manifest that \<open>update_pyproject\<close> loads: the one in the file, or the default
  one when \<open>initialize_pyproject\<close> has to create the file.
\<close>

definition manifest_before :: "world \<Rightarrow> toml" where
  "manifest_before w =
     (case pyproject w of Some (Parsed project_data) \<Rightarrow> project_data | _ \<Rightarrow> project_data_default)"

text \<open>The first directory after \<open>update_pyproject("flask", "2.3.3")\<close>.\<close>

definition world_empty_updated :: world where
  "world_empty_updated =
     \<lparr>pyproject = Some (Parsed
        (TTab [(''tool'', TTab [(''custom'', TTab [(''dependencies'',
                   TTab [(''flask'', TStr ''2.3.3'')])])]),
               (''build-system'',
                  TTab [(''requires'', TArr [TStr ''setuptools'', TStr ''wheel'']),
                        (''build-backend'', TStr ''setuptools.build_meta'')])])),
      readable = True, writable = True,
      console = [Checking, Creating, Created, Adding ''flask'' ''2.3.3'']\<rparr>"

text \<open>
  An interpreter of a legacy virtualenv (\<open>sys.real_prefix\<close> is set, the two prefixes
  are the same), and one outside any environment.
\<close>

definition sys_legacy_virtualenv :: sys_info where
  "sys_legacy_virtualenv =
     \<lparr>sys_prefix = ''/venv'', sys_base_prefix = Some ''/venv'', sys_real_prefix = Some ''/usr''\<rparr>"

definition sys_system :: sys_info where
  "sys_system = \<lparr>sys_prefix = ''/usr'', sys_base_prefix = Some ''/usr'', sys_real_prefix = None\<rparr>"

text \<open>Two events of one burst, with the same listing at both.\<close>

definition burst_of_two :: "(fs_event \<times> run_result) list" where
  "burst_of_two =
     [(FileSystemEvent ''created'' ''/venv/lib/requests'' True, Inr listing_requests),
      (FileSystemEvent ''modified'' ''/venv/lib/requests/api.py'' False, Inr listing_requests)]"


text \<open>
  The monitor just after its start on the second directory, that directory after a
  call that could not run the listing command, and an event.
\<close>

definition monitor_started :: monitor_state where
  "monitor_started = \<lparr>files = world_flask, timer_thread = Running\<rparr>"

definition world_flask_probe_failed :: world where
  "world_flask_probe_failed = world_flask\<lparr>console := [Reconciling, Checking, Already_exists]\<rparr>"

definition event_created :: fs_event where
  "event_created = FileSystemEvent ''created'' ''/venv/lib/requests'' True"

section \<open>Properties\<close>

subsection \<open>The installed set\<close>



lemma freeze_lines_distinct:
  "freeze_lines lines packages = Inr S \<Longrightarrow> distinct (map fst packages) \<Longrightarrow> distinct (map fst S)"
  by (induction lines arbitrary: packages) (auto split: if_splits list.splits simp: distinct_update)

lemma get_installed_packages_distinct:
  "get_installed_packages run = Inr S \<Longrightarrow> distinct (map fst S)"
  by (auto simp: get_installed_packages_def split: sum.splits dest: freeze_lines_distinct)

subsection \<open>The two loops on a dependency table\<close>

lemma needs_update_TTab:
  "needs_update (TTab kvs) p v = Inr (map_of kvs p \<noteq> Some (TStr v))"
  by (cases "map_of kvs p") (auto simp: needs_update_def)

lemma add_or_update_TTab:
  "\<exists>out kvs'. add_or_update S (TTab kvs) = (out, Inr (TTab kvs')) \<and>
     (\<forall>k. map_of kvs' k = (case map_of (rev S) k of Some v \<Rightarrow> Some (TStr v) | None \<Rightarrow> map_of kvs k))
     \<and> (distinct (map fst kvs) \<longrightarrow> distinct (map fst kvs'))"
proof (induction S arbitrary: kvs)
  case Nil
  then show ?case by simp
next
  case (Cons pv S)
  obtain p v where pv: "pv = (p, v)" by (cases pv)
  show ?case
  proof (cases "map_of kvs p = Some (TStr v)")
    case True
    from Cons.IH [of kvs] obtain out kvs' where
      h: "add_or_update S (TTab kvs) = (out, Inr (TTab kvs'))"
         "\<forall>k. map_of kvs' k = (case map_of (rev S) k of Some v \<Rightarrow> Some (TStr v) | None \<Rightarrow> map_of kvs k)"
         "distinct (map fst kvs) \<longrightarrow> distinct (map fst kvs')"
      by blast
    show ?thesis
      using h True by (auto simp: pv needs_update_TTab map_add_def split: option.splits)
  next
    case False
    from Cons.IH [of "AList.update p (TStr v) kvs"] obtain out kvs' where
      h: "add_or_update S (TTab (AList.update p (TStr v) kvs)) = (out, Inr (TTab kvs'))"
         "\<forall>k. map_of kvs' k = (case map_of (rev S) k of Some v \<Rightarrow> Some (TStr v)
              | None \<Rightarrow> map_of (AList.update p (TStr v) kvs) k)"
         "distinct (map fst (AList.update p (TStr v) kvs)) \<longrightarrow> distinct (map fst kvs')"
      by blast
    show ?thesis
      using h False
      by (auto simp: pv needs_update_TTab map_add_def update_conv' distinct_update split: option.splits)
  qed
qed

lemma not_installed_keys:
  "not_installed (map (\<lambda>kv. TStr (fst kv)) kvs) S =
     Inr (map (\<lambda>kv. TStr (fst kv)) (filter (\<lambda>kv. map_of S (fst kv) = None) kvs))"
  by (induction kvs) auto

lemma py_pop_TTab:
  "py_pop (TTab kvs) pkg = Inr d \<Longrightarrow> \<exists>k. pkg = TStr k \<and> d = TTab (AList.delete k kvs)"
  by (cases pkg) (auto split: if_splits)

lemma remove_all_TTab:
  "remove_all pkgs (TTab kvs) = (out, Inr d) \<Longrightarrow>
     \<exists>kvs'. d = TTab kvs' \<and>
       (\<forall>k. map_of kvs' k = (if TStr k \<in> set pkgs then None else map_of kvs k)) \<and>
       (distinct (map fst kvs) \<longrightarrow> distinct (map fst kvs'))"
proof (induction pkgs arbitrary: kvs out)
  case Nil
  then show ?case by auto
next
  case (Cons pkg pkgs)
  from Cons.prems obtain d1 where d1: "py_pop (TTab kvs) pkg = Inr d1"
    by (auto split: sum.splits)
  then obtain k where k: "pkg = TStr k" "d1 = TTab (AList.delete k kvs)"
    using py_pop_TTab by blast
  from Cons.prems d1 obtain out' where "remove_all pkgs d1 = (out', Inr d)"
    by (auto split: prod.splits)
  with k Cons.IH [of "AList.delete k kvs" out'] obtain kvs' where
    h: "d = TTab kvs'"
       "\<forall>j. map_of kvs' j = (if TStr j \<in> set pkgs then None else map_of (AList.delete k kvs) j)"
       "distinct (map fst (AList.delete k kvs)) \<longrightarrow> distinct (map fst kvs')"
    by blast
  show ?case
    using h k by (auto simp: delete_conv' distinct_delete)
qed

lemma map_of_rev_distinct:
  assumes "distinct (map fst S)"
  shows "map_of (rev S) = map_of S"
proof -
  have "distinct (map fst (rev S))" using assms by (simp add: rev_map [symmetric])
  then show ?thesis using assms by (simp add: map_of_inject_set)
qed

lemma sync_dependencies_TTab:
  assumes "sync_dependencies S (TTab kvs) = (out, Inr d)" and "distinct (map fst S)"
  shows "\<exists>kvs'. d = TTab kvs' \<and> (\<forall>k. map_of kvs' k = map_option TStr (map_of S k)) \<and>
           (distinct (map fst kvs) \<longrightarrow> distinct (map fst kvs'))"
proof -
  from add_or_update_TTab [of S kvs] obtain out1 kvs1 where
    a: "add_or_update S (TTab kvs) = (out1, Inr (TTab kvs1))"
       "\<forall>k. map_of kvs1 k = (case map_of (rev S) k of Some v \<Rightarrow> Some (TStr v) | None \<Rightarrow> map_of kvs k)"
       "distinct (map fst kvs) \<longrightarrow> distinct (map fst kvs1)"
    by blast
  let ?pkgs = "map (\<lambda>kv. TStr (fst kv)) (filter (\<lambda>kv. map_of S (fst kv) = None) kvs1)"
  have t: "to_remove (TTab kvs1) S = Inr ?pkgs"
    by (simp add: to_remove_def not_installed_keys)
  from assms(1) a(1) t obtain out2 where "remove_all ?pkgs (TTab kvs1) = (out2, Inr d)"
    by (auto simp: sync_dependencies_def split: prod.splits)
  from remove_all_TTab [OF this] obtain kvs' where
    r: "d = TTab kvs'"
       "\<forall>k. map_of kvs' k = (if TStr k \<in> set ?pkgs then None else map_of kvs1 k)"
       "distinct (map fst kvs1) \<longrightarrow> distinct (map fst kvs')"
    by blast
  have revS: "map_of (rev S) = map_of S"
    using assms(2) by (rule map_of_rev_distinct)
  have "map_of kvs' k = map_option TStr (map_of S k)" for k
  proof (cases "map_of S k")
    case None
    have "map_of kvs1 k \<noteq> None \<Longrightarrow> TStr k \<in> set ?pkgs"
      using None by (force simp: image_iff dest: map_of_SomeD)
    then show ?thesis using r(2) None by (cases "map_of kvs1 k") auto
  next
    case (Some v)
    have "TStr k \<notin> set ?pkgs" using Some by auto
    then show ?thesis using r(2) a(2) Some revS by simp
  qed
  then show ?thesis using r a(3) by blast
qed

subsection \<open>The two loops on a value that is not a table\<close>

lemma add_or_update_Nil_only:
  "add_or_update S d = (out, Inr d') \<Longrightarrow> (\<forall>kvs. d \<noteq> TTab kvs) \<Longrightarrow> S = [] \<and> d' = d \<and> out = []"
  by (cases S; cases d) (auto simp: needs_update_def split: sum.splits bool.splits if_splits)

lemma not_installed_Nil:
  "not_installed xs [] = Inr ys \<Longrightarrow> ys = xs"
  by (induction xs arbitrary: ys) (auto split: sum.splits if_splits elim: not_in_packages.elims)

lemma list_pop_length:
  "list_pop xs i = Inr ys \<Longrightarrow> Suc (length ys) = length xs"
  by (auto simp: list_pop_def Let_def split: if_splits)

lemma py_pop_TArr:
  "py_pop (TArr xs) pkg = Inr d \<Longrightarrow> \<exists>ys. d = TArr ys \<and> Suc (length ys) = length xs"
  by (cases pkg) (auto split: sum.splits dest: list_pop_length)

lemma remove_all_TArr:
  "remove_all pkgs (TArr xs) = (out, Inr d) \<Longrightarrow>
     \<exists>ys. d = TArr ys \<and> length ys + length pkgs = length xs"
proof (induction pkgs arbitrary: xs out)
  case Nil
  then show ?case by auto
next
  case (Cons pkg pkgs)
  from Cons.prems obtain d1 where d1: "py_pop (TArr xs) pkg = Inr d1"
    by (auto split: sum.splits)
  then obtain ys1 where ys1: "d1 = TArr ys1" "Suc (length ys1) = length xs"
    using py_pop_TArr by blast
  from Cons.prems d1 obtain out' where "remove_all pkgs d1 = (out', Inr d)"
    by (auto split: prod.splits)
  with ys1 Cons.IH [of ys1 out'] show ?case by auto
qed

lemma remove_all_other:
  "remove_all pkgs d = (out, Inr d') \<Longrightarrow> (\<forall>kvs. d \<noteq> TTab kvs) \<Longrightarrow> (\<forall>xs. d \<noteq> TArr xs) \<Longrightarrow>
     pkgs = [] \<and> d' = d"
  by (cases pkgs; cases d) (auto split: sum.splits)

lemma sync_dependencies_other:
  assumes "sync_dependencies S d = (out, Inr d')" and "\<forall>kvs. d \<noteq> TTab kvs"
  shows "S = [] \<and> (d' = TStr [] \<or> d' = TArr [])"
proof -
  from assms(1) obtain out1 d1 where a: "add_or_update S d = (out1, Inr d1)"
    by (auto simp: sync_dependencies_def split: prod.splits sum.splits)
  with assms(2) have S: "S = []" and d1: "d1 = d"
    using add_or_update_Nil_only by blast+
  from assms(1) a d1 obtain pkgs out2 where
    t: "to_remove d [] = Inr pkgs" and r: "remove_all pkgs d = (out2, Inr d')"
    by (auto simp: sync_dependencies_def S split: prod.splits sum.splits)
  show ?thesis
  proof (cases d)
    case (TStr s)
    with r have "pkgs = []" "d' = d" using remove_all_other by blast+
    with t TStr have "s = []" by (auto simp: to_remove_def dest: not_installed_Nil)
    with TStr \<open>d' = d\<close> S show ?thesis by simp
  next
    case (TArr xs)
    with t have "pkgs = xs" by (auto simp: to_remove_def dest: not_installed_Nil)
    with r TArr obtain ys where "d' = TArr ys" "length ys + length xs = length xs"
      using remove_all_TArr by blast
    with S show ?thesis by simp
  next
    case (TTab kvs)
    with assms(2) show ?thesis by simp
  qed (use t in \<open>auto simp: to_remove_def\<close>)
qed

subsection \<open>The file and the flags after a call\<close>

lemma debug_fields [simp]:
  "pyproject (debug m w) = pyproject w" "readable (debug m w) = readable w"
  "writable (debug m w) = writable w" "console (debug m w) = console w @ [m]"
  by (simp_all add: debug_def)

lemma debugs_fields [simp]:
  "pyproject (debugs ms w) = pyproject w" "readable (debugs ms w) = readable w"
  "writable (debugs ms w) = writable w" "console (debugs ms w) = console w @ ms"
  by (simp_all add: debugs_def)

lemma initialize_pyproject_exists:
  assumes "pyproject w = Some c"
  shows "initialize_pyproject w = (None, debug Already_exists (debug Checking w))"
  using assms by (simp add: initialize_pyproject_def Let_def)

lemma initialize_pyproject_absent:
  assumes "pyproject w = None"
  shows "initialize_pyproject w =
     (if writable w
      then (None, debug Created ((debug Creating (debug Checking w))\<lparr>pyproject := Some (Parsed project_data_default)\<rparr>))
      else (Some OSError, debug Creating (debug Checking w)))"
  using assms by (simp add: initialize_pyproject_def Let_def write_pyproject_def)

lemma initialize_pyproject_result:
  "initialize_pyproject w = (r, w1) \<Longrightarrow>
     readable w1 = readable w \<and> writable w1 = writable w \<and>
     (case r of
        Some e \<Rightarrow> pyproject w = None \<and> \<not> writable w \<and> pyproject w1 = None
      | None \<Rightarrow> pyproject w1 = (case pyproject w of None \<Rightarrow> Some (Parsed project_data_default) | Some c \<Rightarrow> Some c)
               \<and> (pyproject w = None \<longrightarrow> writable w))"
  by (cases "pyproject w")
     (auto simp: initialize_pyproject_absent initialize_pyproject_exists split: if_splits)

lemma reconcile_after_initialize:
  assumes "initialize_pyproject (debug Reconciling w) = (None, w1)" and "pyproject w1 = Some c"
  shows "readable (snd (reconcile_installed_packages run w)) = readable w1 \<and>
         writable (snd (reconcile_installed_packages run w)) = writable w1 \<and>
         pyproject (snd (reconcile_installed_packages run w)) =
           Some (manifest_after run c (readable w1) (writable w1))"
  using assms
  by (auto simp: reconcile_installed_packages_def manifest_after_def read_pyproject_def
        write_pyproject_def split: sum.splits prod.splits file_content.splits option.splits)

lemma reconcile_flags:
  "readable (snd (reconcile_installed_packages run w)) = readable w \<and>
   writable (snd (reconcile_installed_packages run w)) = writable w"
proof (cases "initialize_pyproject (debug Reconciling w)")
  case (Pair r w1)
  note init = initialize_pyproject_result [OF Pair]
  show ?thesis
  proof (cases r)
    case None
    with init obtain c where "pyproject w1 = Some c" by (auto split: option.splits)
    with reconcile_after_initialize [of w w1 c run] Pair None init show ?thesis by simp
  next
    case (Some e)
    with Pair init show ?thesis by (simp add: reconcile_installed_packages_def)
  qed
qed

lemma reconcile_pyproject:
  "pyproject (snd (reconcile_installed_packages run w)) =
     (case pyproject w of
        Some c \<Rightarrow> Some (manifest_after run c (readable w) (writable w))
      | None \<Rightarrow>
          if writable w then Some (manifest_after run (Parsed project_data_default) (readable w) True)
          else None)"
proof (cases "initialize_pyproject (debug Reconciling w)")
  case (Pair r w1)
  note init = initialize_pyproject_result [OF Pair]
  show ?thesis
  proof (cases r)
    case None
    with init obtain c where c: "pyproject w1 = Some c" by (auto split: option.splits)
    with reconcile_after_initialize [of w w1 c run] Pair None init show ?thesis
      by (auto split: option.splits)
  next
    case (Some e)
    with Pair init show ?thesis by (simp add: reconcile_installed_packages_def)
  qed
qed

lemma setdefault_in_result:
  assumes "setdefault_in k f d = (out, Inr d')"
  shows "\<exists>kvs c'. d = TTab kvs \<and> d' = TTab (AList.update k c' kvs) \<and>
           f (case get_key k d of Some c \<Rightarrow> c | None \<Rightarrow> TTab []) = (out, Inr c')"
  using assms by (cases d) (auto simp: setdefault_in_def split: prod.splits sum.splits)

lemma get_key_update:
  "get_key j (TTab (AList.update k c kvs)) = (if j = k then Some c else get_key j (TTab kvs))"
  by (simp add: update_conv')

lemma setdefault_in_fixed:
  assumes "get_key k d = Some c" and "f c = (out, Inr c)"
  shows "setdefault_in k f d = (out, Inr d)"
  using assms by (cases d) (auto simp: setdefault_in_def update_triv)

lemma with_dependencies_result:
  assumes "with_dependencies f project_data = (out, Inr project_data')"
  shows "\<exists>d'. f (case dependencies_of project_data of Some d \<Rightarrow> d | None \<Rightarrow> TTab []) = (out, Inr d')
           \<and> dependencies_of project_data' = Some d'"
proof -
  let ?g2 = "setdefault_in ''dependencies'' f"
  let ?g1 = "setdefault_in ''custom'' ?g2"
  from assms have "setdefault_in ''tool'' ?g1 project_data = (out, Inr project_data')"
    by (simp add: with_dependencies_def)
  from setdefault_in_result [OF this] obtain kvs tool' where
    t: "project_data = TTab kvs" "project_data' = TTab (AList.update ''tool'' tool' kvs)"
       "?g1 (case get_key ''tool'' project_data of Some c \<Rightarrow> c | None \<Rightarrow> TTab []) = (out, Inr tool')"
    by blast
  let ?tool = "case get_key ''tool'' project_data of Some c \<Rightarrow> c | None \<Rightarrow> TTab []"
  from setdefault_in_result [OF t(3)] obtain kvs1 custom' where
    c: "?tool = TTab kvs1" "tool' = TTab (AList.update ''custom'' custom' kvs1)"
       "?g2 (case get_key ''custom'' ?tool of Some c \<Rightarrow> c | None \<Rightarrow> TTab []) = (out, Inr custom')"
    by blast
  let ?custom = "case get_key ''custom'' ?tool of Some c \<Rightarrow> c | None \<Rightarrow> TTab []"
  from setdefault_in_result [OF c(3)] obtain kvs2 d' where
    d: "?custom = TTab kvs2" "custom' = TTab (AList.update ''dependencies'' d' kvs2)"
       "f (case get_key ''dependencies'' ?custom of Some c \<Rightarrow> c | None \<Rightarrow> TTab []) = (out, Inr d')"
    by blast
  have before: "(case get_key ''dependencies'' ?custom of Some c \<Rightarrow> c | None \<Rightarrow> TTab []) =
      (case dependencies_of project_data of Some d \<Rightarrow> d | None \<Rightarrow> TTab [])"
    by (simp add: dependencies_of_def split: option.splits)
  have after: "dependencies_of project_data' = Some d'"
    unfolding dependencies_of_def t(2) c(2) d(2) by (simp add: get_key_update del: get_key.simps)
  from d(3) before after show ?thesis by simp
qed

lemma with_dependencies_fixed:
  assumes "dependencies_of project_data = Some d" and "f d = (out, Inr d)"
  shows "with_dependencies f project_data = (out, Inr project_data)"
proof -
  from assms(1) obtain tool custom where
    k: "get_key ''tool'' project_data = Some tool" "get_key ''custom'' tool = Some custom"
       "get_key ''dependencies'' custom = Some d"
    by (auto simp: dependencies_of_def split: option.splits)
  have "setdefault_in ''dependencies'' f custom = (out, Inr custom)"
    using k(3) assms(2) by (rule setdefault_in_fixed)
  with k(2) have "setdefault_in ''custom'' (setdefault_in ''dependencies'' f) tool = (out, Inr tool)"
    by (rule setdefault_in_fixed)
  with k(1) show ?thesis
    unfolding with_dependencies_def by (rule setdefault_in_fixed)
qed

subsection \<open>A second call finds nothing to change\<close>

lemma add_or_update_agree:
  "\<forall>(p, v) \<in> set T. map_of kvs p = Some (TStr v) \<Longrightarrow>
     add_or_update T (TTab kvs) = ([], Inr (TTab kvs))"
  by (induction T) (auto simp: needs_update_TTab)

lemma sync_dependencies_fixed_TTab:
  assumes "\<forall>k. map_of kvs k = map_option TStr (map_of S k)" and "distinct (map fst S)"
  shows "sync_dependencies S (TTab kvs) = ([], Inr (TTab kvs))"
proof -
  have "\<forall>(p, v) \<in> set S. map_of kvs p = Some (TStr v)"
    using assms by auto
  then have a: "add_or_update S (TTab kvs) = ([], Inr (TTab kvs))"
    by (rule add_or_update_agree)
  have "map_of S (fst kv) \<noteq> None" if "kv \<in> set kvs" for kv
  proof -
    from that have "map_of kvs (fst kv) \<noteq> None"
      by (metis domIff dom_map_of_conv_image_fst imageI)
    with assms(1) show ?thesis by auto
  qed
  then have "filter (\<lambda>kv. map_of S (fst kv) = None) kvs = []"
    by (auto simp: filter_empty_conv)
  then have t: "to_remove (TTab kvs) S = Inr []"
    by (simp add: to_remove_def not_installed_keys)
  show ?thesis by (simp add: sync_dependencies_def a t)
qed

lemma sync_dependencies_fixed:
  assumes "sync_dependencies S d = (out, Inr d')" and "distinct (map fst S)"
  shows "sync_dependencies S d' = ([], Inr d')"
proof (cases "\<exists>kvs. d = TTab kvs")
  case True
  then obtain kvs where "d = TTab kvs" by blast
  with sync_dependencies_TTab [of S kvs out d'] assms obtain kvs' where
    "d' = TTab kvs'" "\<forall>k. map_of kvs' k = map_option TStr (map_of S k)"
    by blast
  with assms(2) show ?thesis by (simp add: sync_dependencies_fixed_TTab)
next
  case False
  with sync_dependencies_other [OF assms(1)] have "S = []" "d' = TStr [] \<or> d' = TArr []"
    by blast+
  then show ?thesis
    by (auto simp: sync_dependencies_def to_remove_def)
qed

lemma manifest_after_idem:
  "manifest_after run (manifest_after run c r wr) r wr = manifest_after run c r wr"
proof (cases "get_installed_packages run")
  case (Inl e)
  then show ?thesis by (simp add: manifest_after_def)
next
  case (Inr S)
  then have dS: "distinct (map fst S)" by (rule get_installed_packages_distinct)
  show ?thesis
  proof (cases c)
    case (Unparsable t)
    with Inr show ?thesis by (simp add: manifest_after_def)
  next
    case (Parsed doc)
    show ?thesis
    proof (cases "with_dependencies (sync_dependencies S) doc")
      case (Pair out res)
      show ?thesis
      proof (cases res)
        case (Inl e)
        with Pair Parsed Inr show ?thesis by (simp add: manifest_after_def)
      next
        case (Inr doc')
        with Pair have w: "with_dependencies (sync_dependencies S) doc = (out, Inr doc')" by simp
        from with_dependencies_result [OF w] obtain d' where
          d': "sync_dependencies S (case dependencies_of doc of Some d \<Rightarrow> d | None \<Rightarrow> TTab []) = (out, Inr d')"
              "dependencies_of doc' = Some d'"
          by blast
        from sync_dependencies_fixed [OF d'(1) dS] d'(2)
        have "with_dependencies (sync_dependencies S) doc' = ([], Inr doc')"
          by (intro with_dependencies_fixed)
        with w Parsed \<open>get_installed_packages run = Inr S\<close> show ?thesis
          by (simp add: manifest_after_def)
      qed
    qed
  qed
qed

section \<open>The claims\<close>

subsection \<open>C6: lines of the listing that pin nothing\<close>





text \<open>
  A line with more than one separator is not ignored either: the unpacking of its
  three pieces raises \<open>ValueError\<close>.
\<close>

lemma get_installed_packages_two_separators:
  "get_installed_packages (Inr \<lparr>returncode = 0, stdout = ''a==1==2'', stderr = []\<rparr>) = Inl ValueError"
  by (simp add: get_installed_packages_def splitlines_def is_line_boundary_def)

subsection \<open>C2: a second call with the same listing\<close>

text \<open>
  Claim C2. \<open>reconcile_installed_packages\<close> is idempotent: after two calls that see
  the same outcome of the listing command, the manifest file is the one the first
  call left, whether the calls complete or raise.
\<close>

theorem reconcile_twice_same_manifest:
  "pyproject (snd (reconcile_installed_packages run (snd (reconcile_installed_packages run w)))) =
   pyproject (snd (reconcile_installed_packages run w))"
proof -
  let ?w1 = "snd (reconcile_installed_packages run w)"
  have flags: "readable ?w1 = readable w" "writable ?w1 = writable w"
    using reconcile_flags [of run w] by simp_all
  show ?thesis
  proof (cases "pyproject w")
    case (Some c)
    then have "pyproject ?w1 = Some (manifest_after run c (readable w) (writable w))"
      by (simp add: reconcile_pyproject)
    then show ?thesis
      by (simp add: reconcile_pyproject [of run ?w1] flags manifest_after_idem)
  next
    case None
    show ?thesis
    proof (cases "writable w")
      case True
      with None have "pyproject ?w1 = Some (manifest_after run (Parsed project_data_default) (readable w) True)"
        by (simp add: reconcile_pyproject)
      then show ?thesis
        using True by (simp add: reconcile_pyproject [of run ?w1] flags manifest_after_idem)
    next
      case False
      with None have "pyproject ?w1 = None" by (simp add: reconcile_pyproject)
      then show ?thesis
        using False by (simp add: reconcile_pyproject [of run ?w1] flags)
    qed
  qed
qed

subsection \<open>C1: the manifest after a call that completes\<close>

lemma reconcile_success:
  assumes "reconcile_installed_packages run w = (None, w')"
  shows "\<exists>w1 S project_data out project_data'.
           initialize_pyproject (debug Reconciling w) = (None, w1) \<and>
           get_installed_packages run = Inr S \<and>
           read_pyproject w1 = Inr project_data \<and>
           with_dependencies (sync_dependencies S) project_data = (out, Inr project_data') \<and>
           pyproject w' = Some (Parsed project_data')"
  using assms
  by (auto simp: reconcile_installed_packages_def write_pyproject_def
        split: prod.splits option.splits sum.splits if_splits)

lemma read_pyproject_after_initialize:
  assumes "initialize_pyproject w0 = (None, w1)" and "read_pyproject w1 = Inr project_data"
  shows "project_data = (case pyproject w0 of Some (Parsed d) \<Rightarrow> d | _ \<Rightarrow> project_data_default)"
  using initialize_pyproject_result [OF assms(1)] assms(2)
  by (auto simp: read_pyproject_def split: option.splits if_splits file_content.splits)

lemma get_installed_packages_listing_requests:
  "get_installed_packages (Inr listing_requests) = Inr [(''requests'', ''2.31.0'')]"
  by (simp add: get_installed_packages_def listing_requests_def splitlines_def is_line_boundary_def)

lemma reconcile_world_flask:
  "reconcile_installed_packages (Inr listing_requests) world_flask = (None, world_flask_reconciled)"
  by (simp add: reconcile_installed_packages_def get_installed_packages_listing_requests
      world_flask_def manifest_flask_def initialize_pyproject_def debug_def debugs_def Let_def
      read_pyproject_def write_pyproject_def with_dependencies_def setdefault_in_def
      sync_dependencies_def needs_update_def to_remove_def world_flask_reconciled_def)

text \<open>
  Claim C1. When \<open>reconcile_installed_packages\<close> completes, the listing was parsed
  into an installed set \<open>S\<close>, and the dependency mapping of the manifest it wrote
  is \<open>S\<close>: every pair of \<open>S\<close> is in the mapping with its version, and no name outside
  \<open>S\<close> is left. When \<open>S\<close> is not empty, \<open>tool.custom.dependencies\<close> is a table.
\<close>

theorem reconcile_converges:
  assumes "reconcile_installed_packages run w = (None, w')"
  shows "\<exists>S project_data'.
           get_installed_packages run = Inr S \<and>
           pyproject w' = Some (Parsed project_data') \<and>
           dependency_mapping project_data' = (\<lambda>name. map_option TStr (map_of S name)) \<and>
           (\<forall>name version. (name, version) \<in> set S \<longrightarrow>
              dependency_mapping project_data' name = Some (TStr version)) \<and>
           (\<forall>name. name \<notin> fst ` set S \<longrightarrow> dependency_mapping project_data' name = None) \<and>
           (S \<noteq> [] \<longrightarrow> (\<exists>kvs. dependencies_of project_data' = Some (TTab kvs)))"
proof -
  from reconcile_success [OF assms] obtain w1 S project_data out project_data' where
    h: "get_installed_packages run = Inr S"
       "with_dependencies (sync_dependencies S) project_data = (out, Inr project_data')"
       "pyproject w' = Some (Parsed project_data')"
    by blast
  have dS: "distinct (map fst S)" using h(1) by (rule get_installed_packages_distinct)
  let ?d = "case dependencies_of project_data of Some d \<Rightarrow> d | None \<Rightarrow> TTab []"
  from with_dependencies_result [OF h(2)] obtain d' where
    d': "sync_dependencies S ?d = (out, Inr d')" "dependencies_of project_data' = Some d'"
    by blast
  have m: "dependency_mapping project_data' = (\<lambda>name. map_option TStr (map_of S name))"
   and t: "S \<noteq> [] \<longrightarrow> (\<exists>kvs. d' = TTab kvs)"
  proof -
    show "dependency_mapping project_data' = (\<lambda>name. map_option TStr (map_of S name))"
    proof (cases "\<exists>kvs. ?d = TTab kvs")
      case True
      then obtain kvs where "?d = TTab kvs" by blast
      with sync_dependencies_TTab [of S kvs out d'] d'(1) dS obtain kvs' where
        "d' = TTab kvs'" "\<forall>k. map_of kvs' k = map_option TStr (map_of S k)"
        by auto
      with d'(2) show ?thesis by (auto simp: dependency_mapping_def)
    next
      case False
      with sync_dependencies_other [OF d'(1)] have "S = []" "d' = TStr [] \<or> d' = TArr []"
        by blast+
      with d'(2) show ?thesis by (auto simp: dependency_mapping_def)
    qed
    show "S \<noteq> [] \<longrightarrow> (\<exists>kvs. d' = TTab kvs)"
    proof (cases "\<exists>kvs. ?d = TTab kvs")
      case True
      then obtain kvs where "?d = TTab kvs" by blast
      with sync_dependencies_TTab [of S kvs out d'] d'(1) dS show ?thesis by auto
    next
      case False
      with sync_dependencies_other [OF d'(1)] show ?thesis by blast
    qed
  qed
  have pairs: "\<forall>name version. (name, version) \<in> set S \<longrightarrow>
      dependency_mapping project_data' name = Some (TStr version)"
    using dS by (simp add: m)
  have absent: "\<forall>name. name \<notin> fst ` set S \<longrightarrow> dependency_mapping project_data' name = None"
    by (simp add: m map_of_eq_None_iff)
  from h(1,3) m pairs absent t d'(2) show ?thesis by auto
qed

theorem reconcile_converges_witness:
  "reconcile_installed_packages (Inr listing_requests) world_flask = (None, world_flask_reconciled)
   \<and> (\<exists>project_data'. pyproject world_flask_reconciled = Some (Parsed project_data')
        \<and> dependency_mapping project_data' ''requests'' = Some (TStr ''2.31.0'')
        \<and> dependency_mapping project_data' ''flask'' = None)"
proof -
  from reconcile_converges [OF reconcile_world_flask] obtain S project_data' where
    h: "get_installed_packages (Inr listing_requests) = Inr S"
       "pyproject world_flask_reconciled = Some (Parsed project_data')"
       "dependency_mapping project_data' = (\<lambda>name. map_option TStr (map_of S name))"
    by blast
  from h(1) have "S = [(''requests'', ''2.31.0'')]"
    by (simp add: get_installed_packages_listing_requests)
  with h(2,3) reconcile_world_flask show ?thesis by simp
qed

subsection \<open>C5: what a call leaves alone\<close>

lemma get_path_TTab_Nil: "p \<noteq> [] \<Longrightarrow> get_path p (TTab []) = None"
  by (cases p) auto

lemma related_Nil [simp]: "related p []" "related [] q"
  by (simp_all add: related_def)

lemma related_Cons: "related (j # p) (k # q) \<longleftrightarrow> j = k \<and> related p q"
  by (auto simp: related_def)

lemma setdefault_in_frame:
  assumes "setdefault_in k f d = (out, Inr d')"
      and "\<And>c c' p. f c = (out, Inr c') \<Longrightarrow> \<not> related p q \<Longrightarrow> get_path p c' = get_path p c"
      and "\<not> related p (k # q)"
  shows "get_path p d' = get_path p d"
proof -
  from setdefault_in_result [OF assms(1)] obtain kvs c' where
    r: "d = TTab kvs" "d' = TTab (AList.update k c' kvs)"
       "f (case get_key k d of Some c \<Rightarrow> c | None \<Rightarrow> TTab []) = (out, Inr c')"
    by blast
  from assms(3) obtain j p' where p: "p = j # p'" by (cases p) auto
  show ?thesis
  proof (cases "j = k")
    case False
    then show ?thesis by (simp add: p r update_conv')
  next
    case True
    with assms(3) p have np: "\<not> related p' q" by (simp add: related_Cons)
    then have ne: "p' \<noteq> []" by auto
    show ?thesis
    proof (cases "map_of kvs k")
      case None
      with r(1,3) have "f (TTab []) = (out, Inr c')" by simp
      from assms(2) [OF this np] have "get_path p' c' = None" using ne by (simp add: get_path_TTab_Nil)
      with None True show ?thesis by (simp add: p r update_conv')
    next
      case (Some c)
      with r(1,3) have "f c = (out, Inr c')" by simp
      from assms(2) [OF this np] Some True show ?thesis by (simp add: p r update_conv')
    qed
  qed
qed

lemma with_dependencies_frame:
  assumes "with_dependencies f project_data = (out, Inr project_data')"
      and "\<not> related p [''tool'', ''custom'', ''dependencies'']"
  shows "get_path p project_data' = get_path p project_data"
proof -
  have l3: "get_path p c' = get_path p c"
    if "setdefault_in ''dependencies'' f c = (out, Inr c')" "\<not> related p [''dependencies'']" for c c' p
    using that(1) _ that(2) by (rule setdefault_in_frame) simp
  have l2: "get_path p c' = get_path p c"
    if "setdefault_in ''custom'' (setdefault_in ''dependencies'' f) c = (out, Inr c')"
       "\<not> related p [''custom'', ''dependencies'']" for c c' p
    using that(1) l3 that(2) by (rule setdefault_in_frame)
  from assms(1) have "setdefault_in ''tool'' (setdefault_in ''custom'' (setdefault_in ''dependencies'' f))
      project_data = (out, Inr project_data')"
    by (simp add: with_dependencies_def)
  then show ?thesis using l2 assms(2) by (rule setdefault_in_frame)
qed

lemma manifest_after_frame:
  assumes "manifest_after run (Parsed project_data) r wr = c'"
  shows "\<exists>project_data'. c' = Parsed project_data' \<and>
          (\<forall>p. \<not> related p [''tool'', ''custom'', ''dependencies''] \<longrightarrow>
             get_path p project_data' = get_path p project_data)"
  using assms
  by (auto simp: manifest_after_def split: sum.splits if_splits prod.splits
      dest: with_dependencies_frame)

text \<open>
  Claim C5. Whatever the outcome of a call of \<open>reconcile_installed_packages\<close> on an
  existing manifest, the file still holds a document afterwards, its \<open>build-system\<close>
  section is the one it had, and so is every value at a path that neither leads to
  \<open>tool.custom.dependencies\<close> nor lies below it.
\<close>

theorem reconcile_preserves_build_system:
  assumes "pyproject w = Some (Parsed project_data)"
  shows "\<exists>project_data'.
           pyproject (snd (reconcile_installed_packages run w)) = Some (Parsed project_data') \<and>
           get_key ''build-system'' project_data' = get_key ''build-system'' project_data \<and>
           (\<forall>p. \<not> related p [''tool'', ''custom'', ''dependencies''] \<longrightarrow>
              get_path p project_data' = get_path p project_data)"
proof -
  from assms have "pyproject (snd (reconcile_installed_packages run w)) =
      Some (manifest_after run (Parsed project_data) (readable w) (writable w))"
    by (simp add: reconcile_pyproject)
  moreover from manifest_after_frame [OF refl] obtain project_data' where
    f: "manifest_after run (Parsed project_data) (readable w) (writable w) = Parsed project_data'"
       "\<forall>p. \<not> related p [''tool'', ''custom'', ''dependencies''] \<longrightarrow>
             get_path p project_data' = get_path p project_data"
    by blast
  moreover have "\<not> related [''build-system''] [''tool'', ''custom'', ''dependencies'']"
    by (simp add: related_def)
  with f(2) have "get_path [''build-system''] project_data' = get_path [''build-system''] project_data"
    by blast
  then have "get_key ''build-system'' project_data' = get_key ''build-system'' project_data"
    by (simp split: option.splits)
  ultimately show ?thesis by simp
qed

theorem reconcile_preserves_build_system_witness:
  "pyproject world_flask = Some (Parsed manifest_flask) \<and>
   (\<exists>project_data'.
      pyproject (snd (reconcile_installed_packages (Inr listing_requests) world_flask)) =
        Some (Parsed project_data') \<and>
      get_key ''build-system'' project_data' = Some (TTab [(''requires'', TArr [TStr ''setuptools''])]))"
  using reconcile_preserves_build_system [of world_flask manifest_flask "Inr listing_requests"]
  by (auto simp: world_flask_def manifest_flask_def)

subsection \<open>C7: a call that raises before it saves\<close>

lemma initialize_pyproject_file:
  "pyproject (snd (initialize_pyproject w)) = file_after_abort w"
  by (cases "pyproject w")
     (auto simp: initialize_pyproject_absent initialize_pyproject_exists file_after_abort_def)

lemma reconcile_failure:
  assumes "reconcile_installed_packages run w = (Some e, w')"
  shows "pyproject w' = pyproject (snd (initialize_pyproject (debug Reconciling w)))"
  using assms
  by (auto simp: reconcile_installed_packages_def write_pyproject_def
        split: prod.splits option.splits sum.splits if_splits)

lemma reconcile_probe_fails:
  assumes "get_installed_packages run = Inl e"
  shows "fst (reconcile_installed_packages run w) \<noteq> None"
  using assms
  by (auto simp: reconcile_installed_packages_def split: prod.splits option.splits)

lemma reconcile_load_fails:
  assumes "read_pyproject (snd (initialize_pyproject (debug Reconciling w))) = Inl e"
  shows "fst (reconcile_installed_packages run w) \<noteq> None"
  using assms
  by (auto simp: reconcile_installed_packages_def split: prod.splits option.splits sum.splits)

text \<open>
  Claim C7, as amended. When the listing command cannot be run or parsed, or the
  manifest cannot be opened or loaded, \<open>reconcile_installed_packages\<close> raises and
  writes no reconciled manifest: a manifest that existed before the call is unchanged.
  When none existed, \<open>initialize_pyproject\<close> has already created the default
  manifest (where the file can be written), and that file is left in place.
\<close>

theorem reconcile_abort_leaves_manifest:
  assumes "get_installed_packages run = Inl e
           \<or> read_pyproject (snd (initialize_pyproject (debug Reconciling w))) = Inl e"
  shows "fst (reconcile_installed_packages run w) \<noteq> None \<and>
         pyproject (snd (reconcile_installed_packages run w)) = file_after_abort w \<and>
         (pyproject w \<noteq> None \<longrightarrow> pyproject (snd (reconcile_installed_packages run w)) = pyproject w)"
proof -
  from assms have f: "fst (reconcile_installed_packages run w) \<noteq> None"
    using reconcile_probe_fails reconcile_load_fails by blast
  then obtain e' w' where r: "reconcile_installed_packages run w = (Some e', w')"
    by (cases "reconcile_installed_packages run w") auto
  from reconcile_failure [OF r] have "pyproject w' = file_after_abort (debug Reconciling w)"
    by (simp add: initialize_pyproject_file)
  then have "pyproject w' = file_after_abort w"
    by (simp add: file_after_abort_def)
  with f r show ?thesis by (auto simp: file_after_abort_def)
qed

theorem reconcile_abort_leaves_manifest_witness:
  "get_installed_packages (Inl OSError) = Inl OSError \<and>
   fst (reconcile_installed_packages (Inl OSError) world_flask) \<noteq> None \<and>
   pyproject (snd (reconcile_installed_packages (Inl OSError) world_flask)) = Some (Parsed manifest_flask)"
  using reconcile_abort_leaves_manifest [of "Inl OSError" OSError world_flask]
  by (simp add: get_installed_packages_def world_flask_def file_after_abort_def)

text \<open>
  The claim as stated fails where no manifest exists: the call creates one before it
  runs the listing command, and the failure of that command leaves it there.
\<close>

theorem reconcile_abort_creates_manifest:
  "get_installed_packages (Inl OSError) = Inl OSError \<and>
   pyproject world_empty = None \<and>
   fst (reconcile_installed_packages (Inl OSError) world_empty) = Some OSError \<and>
   pyproject (snd (reconcile_installed_packages (Inl OSError) world_empty)) =
     Some (Parsed project_data_default) \<and>
   pyproject (snd (reconcile_installed_packages (Inl OSError) world_empty)) \<noteq> pyproject world_empty"
  by (simp add: reconcile_installed_packages_def get_installed_packages_def world_empty_def
      initialize_pyproject_def write_pyproject_def debug_def Let_def)

subsection \<open>C10: \<open>update_pyproject\<close>\<close>

lemma set_dependency_result:
  assumes "set_dependency package version d = (out, Inr d')"
  shows "\<exists>kvs. d = TTab kvs \<and> d' = TTab (AList.update package (TStr version) kvs)"
proof (cases d)
  case (TTab kvs)
  with assms show ?thesis
    by (cases "map_of kvs package") (auto simp: set_dependency_def update_triv split: if_splits)
qed (use assms in \<open>auto simp: set_dependency_def split: if_splits bool.splits\<close>)

lemma update_pyproject_success:
  assumes "update_pyproject package version w = (None, w')"
  shows "\<exists>w1 project_data out project_data'.
           initialize_pyproject w = (None, w1) \<and>
           read_pyproject w1 = Inr project_data \<and>
           with_dependencies (set_dependency package version) project_data = (out, Inr project_data') \<and>
           pyproject w' = Some (Parsed project_data')"
  using assms
  by (auto simp: update_pyproject_def write_pyproject_def
        split: prod.splits option.splits sum.splits if_splits)

lemma dependency_mapping_default: "dependency_mapping project_data_default = Map.empty"
  by (simp add: dependency_mapping_def dependencies_of_def project_data_default_def)

lemma update_pyproject_world_empty:
  "update_pyproject ''flask'' ''2.3.3'' world_empty = (None, world_empty_updated)"
  by code_simp

text \<open>
  Claim C10. When \<open>update_pyproject(package, version)\<close> completes, the manifest it
  wrote maps \<open>package\<close> to \<open>version\<close> and every other name to what the manifest
  mapped it to before. Where no manifest file existed, \<open>initialize_pyproject\<close> first
  creates the default manifest, with an empty dependency mapping and the default
  \<open>build-system\<close> section, which the manifest written keeps.
\<close>

theorem update_pyproject_sets_dependency:
  assumes "update_pyproject package version w = (None, w')"
  shows "\<exists>project_data'.
           pyproject w' = Some (Parsed project_data') \<and>
           dependency_mapping project_data' package = Some (TStr version) \<and>
           (\<forall>other. other \<noteq> package \<longrightarrow>
              dependency_mapping project_data' other = dependency_mapping (manifest_before w) other) \<and>
           (pyproject w = None \<longrightarrow>
              pyproject (snd (initialize_pyproject w)) = Some (Parsed project_data_default) \<and>
              dependency_mapping project_data_default = Map.empty \<and>
              get_key ''build-system'' project_data' = get_key ''build-system'' project_data_default)"
proof -
  from update_pyproject_success [OF assms] obtain w1 project_data out project_data' where
    h: "initialize_pyproject w = (None, w1)" "read_pyproject w1 = Inr project_data"
       "with_dependencies (set_dependency package version) project_data = (out, Inr project_data')"
       "pyproject w' = Some (Parsed project_data')"
    by blast
  have before: "project_data = manifest_before w"
    using read_pyproject_after_initialize [OF h(1,2)] by (simp add: manifest_before_def)
  let ?d = "case dependencies_of project_data of Some d \<Rightarrow> d | None \<Rightarrow> TTab []"
  from with_dependencies_result [OF h(3)] obtain d' where
    d': "set_dependency package version ?d = (out, Inr d')" "dependencies_of project_data' = Some d'"
    by blast
  from set_dependency_result [OF d'(1)] obtain kvs where
    kvs: "?d = TTab kvs" "d' = TTab (AList.update package (TStr version) kvs)"
    by blast
  have old: "dependency_mapping project_data = map_of kvs"
    using kvs(1) by (auto simp: dependency_mapping_def split: option.splits toml.splits)
  have new: "dependency_mapping project_data' = (map_of kvs)(package \<mapsto> TStr version)"
    using d'(2) kvs(2) by (simp add: dependency_mapping_def update_conv')
  have bs: "get_key ''build-system'' project_data' = get_key ''build-system'' project_data"
  proof -
    have "\<not> related [''build-system''] [''tool'', ''custom'', ''dependencies'']"
      by (simp add: related_def)
    with with_dependencies_frame [OF h(3)]
    have "get_path [''build-system''] project_data' = get_path [''build-system''] project_data"
      by blast
    then show ?thesis by (simp split: option.splits)
  qed
  have absent: "pyproject w = None \<longrightarrow>
      pyproject (snd (initialize_pyproject w)) = Some (Parsed project_data_default)"
    using h(1) initialize_pyproject_result [OF h(1)] by auto
  have "pyproject w = None \<longrightarrow> project_data = project_data_default"
    using before by (simp add: manifest_before_def)
  with h(4) old new bs absent before show ?thesis
    by (auto simp: dependency_mapping_default)
qed

theorem update_pyproject_sets_dependency_witness:
  "update_pyproject ''flask'' ''2.3.3'' world_empty = (None, world_empty_updated) \<and>
   pyproject world_empty = None \<and>
   (\<exists>project_data'. pyproject world_empty_updated = Some (Parsed project_data') \<and>
      dependency_mapping project_data' ''flask'' = Some (TStr ''2.3.3'') \<and>
      dependency_mapping project_data' ''requests'' = None \<and>
      get_key ''build-system'' project_data' = get_key ''build-system'' project_data_default)"
proof -
  from update_pyproject_sets_dependency [OF update_pyproject_world_empty] obtain project_data' where
    h: "pyproject world_empty_updated = Some (Parsed project_data')"
       "dependency_mapping project_data' ''flask'' = Some (TStr ''2.3.3'')"
       "\<forall>other. other \<noteq> ''flask'' \<longrightarrow>
          dependency_mapping project_data' other = dependency_mapping (manifest_before world_empty) other"
       "pyproject world_empty = None \<longrightarrow>
          pyproject (snd (initialize_pyproject world_empty)) = Some (Parsed project_data_default) \<and>
          dependency_mapping project_data_default = Map.empty \<and>
          get_key ''build-system'' project_data' = get_key ''build-system'' project_data_default"
    by (elim exE conjE) (rule that, assumption+)
  have e: "pyproject world_empty = None" by (simp add: world_empty_def)
  have "manifest_before world_empty = project_data_default"
    by (simp add: manifest_before_def e)
  with h(3) have r: "dependency_mapping project_data' ''requests'' = None"
    by (simp add: dependency_mapping_default)
  from h(4) e have b: "get_key ''build-system'' project_data' = get_key ''build-system'' project_data_default"
    by simp
  show ?thesis
    using update_pyproject_world_empty e h(1,2) r b by simp
qed

subsection \<open>C9: the check before the monitor starts\<close>

text \<open>
  Claim C9, as amended. With \<open>sys.base_prefix\<close> present, \<open>monitor_virtualenv\<close> goes on
  to watch when \<open>sys\<close> has a \<open>real_prefix\<close> attribute or the base prefix differs from
  the prefix. When there is no \<open>real_prefix\<close> and the two prefixes are the same it
  prints the error and leaves with \<open>sys.exit(1)\<close>: the manifest file is as before and
  nothing but the two debug lines and the error has been printed, so no reconciliation
  has run.
\<close>

theorem monitor_virtualenv_gate:
  assumes "sys_base_prefix sys = Some base_prefix"
  shows "(sys_real_prefix sys \<noteq> None \<or> base_prefix \<noteq> sys_prefix sys \<longrightarrow>
            fst (monitor_virtualenv sys site_packages_dir w) = Watching site_packages_dir) \<and>
         (sys_real_prefix sys = None \<and> base_prefix = sys_prefix sys \<longrightarrow>
            monitor_virtualenv sys site_packages_dir w =
              (Exited 1,
               w\<lparr>console := console w @
                    [Sys_prefix (sys_prefix sys), Sys_base_prefix base_prefix, Must_run_in_venv]\<rparr>))"
  using assms
  by (auto simp: monitor_virtualenv_def is_virtual_env_def debug_def py_print_def Let_def)

theorem monitor_virtualenv_gate_witness:
  "sys_base_prefix sys_system = Some ''/usr'' \<and> sys_real_prefix sys_system = None \<and>
   sys_prefix sys_system = ''/usr'' \<and>
   monitor_virtualenv sys_system ''/venv/lib'' world_flask =
     (Exited 1,
      world_flask\<lparr>console := [Sys_prefix ''/usr'', Sys_base_prefix ''/usr'', Must_run_in_venv]\<rparr>)"
  using monitor_virtualenv_gate [of sys_system "''/usr''" "''/venv/lib''" world_flask]
  by (simp add: sys_system_def world_flask_def)

text \<open>
  The claim as stated fails in a legacy virtualenv: the two prefixes are the same, and
  the monitor still starts, because \<open>hasattr(sys, 'real_prefix')\<close> decides first.
\<close>

theorem monitor_virtualenv_legacy_proceeds:
  "sys_base_prefix sys_legacy_virtualenv = Some (sys_prefix sys_legacy_virtualenv) \<and>
   fst (monitor_virtualenv sys_legacy_virtualenv ''/venv/lib'' world_empty) = Watching ''/venv/lib''"
  by (simp add: monitor_virtualenv_def is_virtual_env_def sys_legacy_virtualenv_def Let_def)

subsection \<open>Counting the reconciliations on the console\<close>

lemma reconciliations_debug:
  "reconciliations (debug m w) = (if m = Reconciling then Suc (reconciliations w) else reconciliations w)"
  by (simp add: reconciliations_def)

lemma reconciliations_debugs:
  "Reconciling \<notin> set ms \<Longrightarrow> reconciliations (debugs ms w) = reconciliations w"
  by (auto simp: reconciliations_def filter_empty_conv)

lemma reconciliations_pyproject_update [simp]:
  "reconciliations (w\<lparr>pyproject := x\<rparr>) = reconciliations w"
  by (simp add: reconciliations_def)

lemma add_or_update_messages:
  "add_or_update S d = (out, r) \<Longrightarrow> Reconciling \<notin> set out"
proof (induction S arbitrary: d out r)
  case Nil
  then show ?case by simp
next
  case (Cons pv S)
  obtain p v where pv: "pv = (p, v)" by (cases pv)
  show ?case
  proof (cases "needs_update d p v")
    case (Inl e)
    with Cons.prems pv show ?thesis by simp
  next
    case (Inr b)
    show ?thesis
    proof (cases b)
      case False
      with Cons.prems pv Inr have "add_or_update S d = (out, r)" by simp
      then show ?thesis by (rule Cons.IH)
    next
      case True
      show ?thesis
      proof (cases "py_setitem d p (TStr v)")
        case (Inl e)
        with Cons.prems pv Inr True show ?thesis by auto
      next
        case (Inr d')
        obtain out' r' where rest: "add_or_update S d' = (out', r')"
          by (cases "add_or_update S d'")
        from Cons.IH [OF rest] Cons.prems pv \<open>needs_update d p v = Inr b\<close> True Inr rest
        show ?thesis by auto
      qed
    qed
  qed
qed

lemma remove_all_messages:
  "remove_all pkgs d = (out, r) \<Longrightarrow> Reconciling \<notin> set out"
proof (induction pkgs arbitrary: d out r)
  case Nil
  then show ?case by simp
next
  case (Cons pkg pkgs)
  show ?case
  proof (cases "py_pop d pkg")
    case (Inl e)
    with Cons.prems show ?thesis by auto
  next
    case (Inr d')
    obtain out' r' where rest: "remove_all pkgs d' = (out', r')" by (cases "remove_all pkgs d'")
    from Cons.IH [OF rest] Cons.prems Inr rest show ?thesis by auto
  qed
qed

lemma sync_dependencies_messages:
  assumes "sync_dependencies S d = (out, r)"
  shows "Reconciling \<notin> set out"
proof -
  obtain out1 r1 where a: "add_or_update S d = (out1, r1)" by (cases "add_or_update S d")
  then have o1: "Reconciling \<notin> set out1" by (rule add_or_update_messages)
  show ?thesis
  proof (cases r1)
    case (Inl e)
    with assms a o1 show ?thesis by (simp add: sync_dependencies_def)
  next
    case (Inr d1)
    show ?thesis
    proof (cases "to_remove d1 S")
      case (Inl e)
      with assms a Inr o1 show ?thesis by (simp add: sync_dependencies_def)
    next
      case (Inr pkgs)
      obtain out2 r2 where rm: "remove_all pkgs d1 = (out2, r2)" by (cases "remove_all pkgs d1")
      then have "Reconciling \<notin> set out2" by (rule remove_all_messages)
      with assms a \<open>r1 = Inr d1\<close> Inr rm o1 show ?thesis
        by (auto simp: sync_dependencies_def)
    qed
  qed
qed

lemma setdefault_in_messages:
  assumes "\<And>c out r. f c = (out, r) \<Longrightarrow> Reconciling \<notin> set out"
      and "setdefault_in k f d = (out, r)"
  shows "Reconciling \<notin> set out"
proof (cases d)
  case (TTab kvs)
  let ?c = "case map_of kvs k of Some child \<Rightarrow> child | None \<Rightarrow> TTab []"
  obtain out' r' where fc: "f ?c = (out', r')" by (cases "f ?c")
  from assms(1) [OF fc] assms(2) TTab fc show ?thesis
    by (auto simp: setdefault_in_def split: sum.splits)
qed (use assms(2) in \<open>auto simp: setdefault_in_def\<close>)

lemma with_dependencies_messages:
  assumes "with_dependencies (sync_dependencies S) project_data = (out, r)"
  shows "Reconciling \<notin> set out"
proof -
  have l3: "Reconciling \<notin> set out"
    if "setdefault_in ''dependencies'' (sync_dependencies S) c = (out, r)" for c out r
    using sync_dependencies_messages that by (rule setdefault_in_messages)
  have l2: "Reconciling \<notin> set out"
    if "setdefault_in ''custom'' (setdefault_in ''dependencies'' (sync_dependencies S)) c = (out, r)"
    for c out r
    using l3 that by (rule setdefault_in_messages)
  from assms show ?thesis
    unfolding with_dependencies_def using l2 by (rule setdefault_in_messages [rotated])
qed

lemma initialize_pyproject_reconciliations:
  "reconciliations (snd (initialize_pyproject w)) = reconciliations w"
  by (cases "pyproject w")
     (auto simp: initialize_pyproject_absent initialize_pyproject_exists reconciliations_debug)

lemma reconcile_reconciliations:
  "reconciliations (snd (reconcile_installed_packages run w)) = Suc (reconciliations w)"
proof -
  let ?w0 = "debug Reconciling w"
  obtain r w1 where i: "initialize_pyproject ?w0 = (r, w1)" by (cases "initialize_pyproject ?w0")
  with initialize_pyproject_reconciliations [of ?w0]
  have w1: "reconciliations w1 = Suc (reconciliations w)" by (simp add: reconciliations_debug)
  have out: "reconciliations (debugs out w1) = Suc (reconciliations w)"
    if "with_dependencies (sync_dependencies S) d = (out, res)" for S d out res
    using with_dependencies_messages [OF that] w1 by (simp add: reconciliations_debugs)
  show ?thesis
    using i w1 out
    by (auto simp: reconcile_installed_packages_def write_pyproject_def reconciliations_debug
        split: option.splits sum.splits prod.splits)
qed

lemma on_any_event_reconciliations:
  "reconciliations (snd (on_any_event event run w)) = Suc (reconciliations w)"
  by (simp add: on_any_event_def reconcile_reconciliations reconciliations_debug)

subsection \<open>C4: one reconciliation for each event\<close>

lemma dispatch_burst_of_two:
  "fst (dispatch_events burst_of_two world_flask) = None"
  by code_simp

text \<open>
  Claim C4, as amended. The handler does not debounce: \<open>on_any_event\<close> starts one
  reconciliation at every call, so a burst of \<open>N\<close> events whose reconciliations all
  complete starts \<open>N\<close> reconciliations.
\<close>

theorem dispatch_events_one_reconciliation_each:
  assumes "fst (dispatch_events burst w) = None"
  shows "reconciliations (snd (dispatch_events burst w)) = reconciliations w + length burst"
  using assms
proof (induction burst arbitrary: w)
  case Nil
  then show ?case by simp
next
  case (Cons er burst)
  obtain event run where er: "er = (event, run)" by (cases er)
  obtain r w' where o: "on_any_event event run w = (r, w')" by (cases "on_any_event event run w")
  with on_any_event_reconciliations [of event run w]
  have n: "reconciliations w' = Suc (reconciliations w)" by simp
  show ?case
  proof (cases r)
    case None
    with Cons.prems er o have "fst (dispatch_events burst w') = None" by simp
    from Cons.IH [OF this] n None er o show ?thesis by simp
  next
    case (Some e)
    with Cons.prems er o show ?thesis by simp
  qed
qed

theorem dispatch_events_one_reconciliation_each_witness:
  "fst (dispatch_events burst_of_two world_flask) = None \<and>
   reconciliations world_flask = 0 \<and> length burst_of_two = 2 \<and>
   reconciliations (snd (dispatch_events burst_of_two world_flask)) = 2"
  using dispatch_events_one_reconciliation_each [OF dispatch_burst_of_two] dispatch_burst_of_two
  by (simp add: reconciliations_def world_flask_def burst_of_two_def)

text \<open>
  The claim as stated fails for a burst of two events: two reconciliations are
  started, not one.
\<close>

theorem burst_of_two_reconciles_twice:
  "length burst_of_two = 2 \<and>
   fst (dispatch_events burst_of_two world_flask) = None \<and>
   reconciliations (snd (dispatch_events burst_of_two world_flask)) - reconciliations world_flask = 2 \<and>
   reconciliations (snd (dispatch_events burst_of_two world_flask)) - reconciliations world_flask \<noteq> 1"
  by code_simp

subsection \<open>C8: an exception of a reconciliation\<close>

lemma monitor_run_timer_ended:
  "timer_thread s = Ended e \<Longrightarrow> monitor_run resumes (map Timer_tick ticks) s = (Still_watching, s)"
  by (induction ticks) auto

lemma monitor_run_ticks:
  "timer_thread s = Running \<Longrightarrow>
     monitor_run resumes (map Timer_tick ticks) s =
       (Still_watching,
        s\<lparr>files := snd (periodic_reconcile ticks (files s)),
          timer_thread := (case fst (periodic_reconcile ticks (files s)) of
                             None \<Rightarrow> Running | Some e \<Rightarrow> Ended e)\<rparr>)"
proof (induction ticks arbitrary: s)
  case Nil
  then show ?case by simp
next
  case (Cons run ticks)
  obtain r w' where t: "reconcile_installed_packages run (files s) = (r, w')"
    by (cases "reconcile_installed_packages run (files s)")
  show ?case
  proof (cases r)
    case None
    have "timer_thread (s\<lparr>files := w'\<rparr>) = Running" using Cons.prems by simp
    from Cons.IH [OF this] Cons.prems None t show ?thesis by simp
  next
    case (Some e)
    have "timer_thread (s\<lparr>files := w', timer_thread := Ended e\<rparr>) = Ended e" by simp
    from monitor_run_timer_ended [OF this] Cons.prems Some t show ?thesis by simp
  qed
qed

lemma periodic_reconcile_ends_at_error:
  assumes "periodic_reconcile before w = (None, w1)"
      and "reconcile_installed_packages run w1 = (Some e, w2)"
  shows "periodic_reconcile (before @ run # later) w = (Some e, w2)"
  using assms
proof (induction before arbitrary: w)
  case Nil
  then show ?case by simp
next
  case (Cons tick before)
  obtain r w' where t: "reconcile_installed_packages tick w = (r, w')"
    by (cases "reconcile_installed_packages tick w")
  show ?case
  proof (cases r)
    case None
    with Cons.prems(1) t have "periodic_reconcile before w' = (None, w1)" by simp
    from Cons.IH [OF this Cons.prems(2)] None t show ?thesis by simp
  next
    case (Some e')
    with Cons.prems(1) t show ?thesis by simp
  qed
qed

lemma monitor_run_event_reconciliations:
  "reconciliations (files (snd (monitor_run resumes [Fs_event event run] s))) =
     Suc (reconciliations (files s))"
proof -
  obtain r w' where o: "on_any_event event run (files s) = (r, w')"
    by (cases "on_any_event event run (files s)")
  with on_any_event_reconciliations [of event run "files s"]
  have "reconciliations w' = Suc (reconciliations (files s))" by simp
  with o show ?thesis by (cases r) auto
qed

lemma reconcile_monitor_started_oserror:
  "reconcile_installed_packages (Inl OSError) (files monitor_started) =
     (Some OSError, world_flask_probe_failed)"
  by code_simp

lemma reconcile_monitor_started_event_oserror:
  "reconcile_installed_packages (Inl OSError) (debug Change_detected (files monitor_started)) =
     (Some OSError, world_flask\<lparr>console := [Change_detected, Reconciling, Checking, Already_exists]\<rparr>)"
  by code_simp

lemma reconciliations_monitor_started: "reconciliations (files monitor_started) = 0"
  by code_simp

text \<open>
  Claim C8, as amended. Nothing in the code catches an error raised inside a
  reconciliation. Raised at a tick of the periodic timer, it ends the loop of
  \<open>periodic_reconcile\<close> and with it the timer thread, so the periodic trigger does not
  keep firing: no later tick starts a reconciliation. It does not crash the monitor,
  which goes on watching and still starts a reconciliation at the next filesystem
  event. Raised at a filesystem event, it is raised by \<open>on_any_event\<close> to the observer
  that called it. Where the observer stops, the run ends with that exception in the
  observer thread; where it goes on with the next event, the monitor goes on, and the
  next trigger from either source still starts a reconciliation, a tick as long as
  the timer loop has not ended. The ticks of the monitor are the iterations of
  \<open>periodic_reconcile\<close>.
\<close>

theorem error_in_reconciliation:
  "(timer_thread s = Running \<and> reconcile_installed_packages run (files s) = (Some e, w_left) \<longrightarrow>
      monitor_run resumes [Timer_tick run] s = (Still_watching, s\<lparr>files := w_left, timer_thread := Ended e\<rparr>) \<and>
      monitor_run resumes (Timer_tick run # map Timer_tick ticks) s =
        (Still_watching, s\<lparr>files := w_left, timer_thread := Ended e\<rparr>) \<and>
      reconciliations (files (snd (monitor_run resumes [Timer_tick run, Fs_event event run'] s))) =
        reconciliations (files s) + 2)
   \<and> (reconcile_installed_packages run (debug Change_detected (files s)) = (Some e, w_left) \<longrightarrow>
      on_any_event event run (files s) = (Some e, w_left) \<and>
      monitor_run False (Fs_event event run # later) s = (Observer_raised e, s\<lparr>files := w_left\<rparr>) \<and>
      monitor_run True (Fs_event event run # later) s = monitor_run True later (s\<lparr>files := w_left\<rparr>) \<and>
      reconciliations (files (snd (monitor_run True [Fs_event event run, Fs_event event' run'] s))) =
        reconciliations (files s) + 2 \<and>
      (timer_thread s = Running \<longrightarrow>
         reconciliations (files (snd (monitor_run True [Fs_event event run, Timer_tick run'] s))) =
           reconciliations (files s) + 2))
   \<and> (timer_thread s = Running \<longrightarrow>
      monitor_run resumes (map Timer_tick ticks) s =
        (Still_watching,
         s\<lparr>files := snd (periodic_reconcile ticks (files s)),
           timer_thread := (case fst (periodic_reconcile ticks (files s)) of
                              None \<Rightarrow> Running | Some e \<Rightarrow> Ended e)\<rparr>))
   \<and> (periodic_reconcile before w = (None, w_mid) \<and>
        reconcile_installed_packages run w_mid = (Some e, w_left) \<longrightarrow>
      periodic_reconcile (before @ run # ticks) w = (Some e, w_left))"
proof (intro conjI impI)
  assume a: "timer_thread s = Running \<and> reconcile_installed_packages run (files s) = (Some e, w_left)"
  let ?s1 = "s\<lparr>files := w_left, timer_thread := Ended e\<rparr>"
  show "monitor_run resumes [Timer_tick run] s = (Still_watching, ?s1)"
    using a by simp
  have "timer_thread ?s1 = Ended e" by simp
  from monitor_run_timer_ended [OF this]
  show "monitor_run resumes (Timer_tick run # map Timer_tick ticks) s = (Still_watching, ?s1)"
    using a by simp
  have "monitor_run resumes [Timer_tick run, Fs_event event run'] s =
      monitor_run resumes [Fs_event event run'] ?s1"
    using a by simp
  moreover have "reconciliations w_left = Suc (reconciliations (files s))"
    using a reconcile_reconciliations [of run "files s"] by simp
  ultimately show "reconciliations (files (snd (monitor_run resumes [Timer_tick run, Fs_event event run'] s))) =
      reconciliations (files s) + 2"
    by (simp only: monitor_run_event_reconciliations) simp
next
  assume a: "reconcile_installed_packages run (debug Change_detected (files s)) = (Some e, w_left)"
  then show o: "on_any_event event run (files s) = (Some e, w_left)"
    by (simp add: on_any_event_def)
  then show "monitor_run False (Fs_event event run # later) s = (Observer_raised e, s\<lparr>files := w_left\<rparr>)"
    by simp
  from o show "monitor_run True (Fs_event event run # later) s = monitor_run True later (s\<lparr>files := w_left\<rparr>)"
    by simp
  have n: "reconciliations w_left = Suc (reconciliations (files s))"
    using o on_any_event_reconciliations [of event run "files s"] by simp
  have "monitor_run True [Fs_event event run, Fs_event event' run'] s =
      monitor_run True [Fs_event event' run'] (s\<lparr>files := w_left\<rparr>)"
    using o by simp
  then show "reconciliations (files (snd (monitor_run True [Fs_event event run, Fs_event event' run'] s))) =
      reconciliations (files s) + 2"
    using n by (simp only: monitor_run_event_reconciliations) simp
  assume t: "timer_thread s = Running"
  obtain r w2 where r: "reconcile_installed_packages run' w_left = (r, w2)"
    by (cases "reconcile_installed_packages run' w_left")
  with reconcile_reconciliations [of run' w_left] have "reconciliations w2 = Suc (reconciliations w_left)"
    by simp
  with o t r n show "reconciliations (files (snd (monitor_run True [Fs_event event run, Timer_tick run'] s))) =
      reconciliations (files s) + 2"
    by (cases r) auto
next
  assume "timer_thread s = Running"
  then show "monitor_run resumes (map Timer_tick ticks) s =
        (Still_watching,
         s\<lparr>files := snd (periodic_reconcile ticks (files s)),
           timer_thread := (case fst (periodic_reconcile ticks (files s)) of
                              None \<Rightarrow> Running | Some e \<Rightarrow> Ended e)\<rparr>)"
    by (rule monitor_run_ticks)
next
  assume "periodic_reconcile before w = (None, w_mid) \<and>
        reconcile_installed_packages run w_mid = (Some e, w_left)"
  then show "periodic_reconcile (before @ run # ticks) w = (Some e, w_left)"
    using periodic_reconcile_ends_at_error by blast
qed

theorem error_in_reconciliation_witness:
  "timer_thread monitor_started = Running \<and>
   reconcile_installed_packages (Inl OSError) (files monitor_started) =
     (Some OSError, world_flask_probe_failed) \<and>
   monitor_run False [Timer_tick (Inl OSError), Timer_tick (Inr listing_requests)] monitor_started =
     (Still_watching,
      monitor_started\<lparr>files := world_flask_probe_failed, timer_thread := Ended OSError\<rparr>) \<and>
   reconciliations (files (snd (monitor_run False
       [Timer_tick (Inl OSError), Fs_event event_created (Inr listing_requests)] monitor_started))) = 2 \<and>
   on_any_event event_created (Inl OSError) (files monitor_started) =
     (Some OSError, world_flask\<lparr>console := [Change_detected, Reconciling, Checking, Already_exists]\<rparr>) \<and>
   monitor_run False [Fs_event event_created (Inl OSError), Timer_tick (Inr listing_requests)]
       monitor_started =
     (Observer_raised OSError,
      monitor_started\<lparr>files :=
        world_flask\<lparr>console := [Change_detected, Reconciling, Checking, Already_exists]\<rparr>\<rparr>) \<and>
   reconciliations (files (snd (monitor_run True
       [Fs_event event_created (Inl OSError), Timer_tick (Inr listing_requests)] monitor_started))) = 2"
proof -
  have t: "timer_thread monitor_started = Running" by (simp add: monitor_started_def)
  note T = error_in_reconciliation [where s = monitor_started and run = "Inl OSError"
      and e = OSError and w_left = world_flask_probe_failed and resumes = False
      and ticks = "[Inr listing_requests]" and event = event_created and event' = event_created
      and run' = "Inr listing_requests" and later = "[]"
      and before = "[]" and w = world_flask and w_mid = world_flask]
  note E = error_in_reconciliation [where s = monitor_started and run = "Inl OSError"
      and e = OSError
      and w_left = "world_flask\<lparr>console := [Change_detected, Reconciling, Checking, Already_exists]\<rparr>"
      and event = event_created and event' = event_created and run' = "Inr listing_requests"
      and later = "[Timer_tick (Inr listing_requests)]" and resumes = False
      and ticks = "[]" and before = "[]" and w = world_flask and w_mid = world_flask]
  note T1 = T [THEN conjunct1, THEN mp, OF conjI [OF t reconcile_monitor_started_oserror]]
  note E1 = E [THEN conjunct2, THEN conjunct1, THEN mp, OF reconcile_monitor_started_event_oserror]
  have a: "monitor_run False [Timer_tick (Inl OSError), Timer_tick (Inr listing_requests)] monitor_started =
     (Still_watching,
      monitor_started\<lparr>files := world_flask_probe_failed, timer_thread := Ended OSError\<rparr>)"
    using T1 [THEN conjunct2, THEN conjunct1] by (simp only: list.map)
  have b: "reconciliations (files (snd (monitor_run False
       [Timer_tick (Inl OSError), Fs_event event_created (Inr listing_requests)] monitor_started))) = 2"
    using T1 [THEN conjunct2, THEN conjunct2]
    by (simp del: monitor_run.simps add: reconciliations_monitor_started)
  have c: "on_any_event event_created (Inl OSError) (files monitor_started) =
     (Some OSError, world_flask\<lparr>console := [Change_detected, Reconciling, Checking, Already_exists]\<rparr>)"
    using E1 [THEN conjunct1] .
  have d: "monitor_run False [Fs_event event_created (Inl OSError), Timer_tick (Inr listing_requests)]
       monitor_started =
     (Observer_raised OSError,
      monitor_started\<lparr>files :=
        world_flask\<lparr>console := [Change_detected, Reconciling, Checking, Already_exists]\<rparr>\<rparr>)"
    using E1 [THEN conjunct2, THEN conjunct1] .
  have f: "reconciliations (files (snd (monitor_run True
       [Fs_event event_created (Inl OSError), Timer_tick (Inr listing_requests)] monitor_started))) = 2"
    using E1 [THEN conjunct2, THEN conjunct2, THEN conjunct2, THEN conjunct2, THEN mp, OF t]
    by (simp del: monitor_run.simps add: reconciliations_monitor_started)
  from t reconcile_monitor_started_oserror a b c d f show ?thesis by (intro conjI)
qed

text \<open>
  The claim as stated fails with a first tick at which the listing command cannot be
  run and a second one at which it can: a reconciliation at the second tick would
  complete, but the loop has ended, only one reconciliation was started, and the
  manifest is still the old one.
\<close>

theorem periodic_reconcile_no_next_tick:
  "fst (reconcile_installed_packages (Inl OSError) world_flask) = Some OSError \<and>
   fst (reconcile_installed_packages (Inr listing_requests)
          (snd (reconcile_installed_packages (Inl OSError) world_flask))) = None \<and>
   fst (periodic_reconcile [Inl OSError, Inr listing_requests] world_flask) = Some OSError \<and>
   reconciliations (snd (periodic_reconcile [Inl OSError, Inr listing_requests] world_flask)) = 1 \<and>
   pyproject (snd (periodic_reconcile [Inl OSError, Inr listing_requests] world_flask)) =
     Some (Parsed manifest_flask)"
  by code_simp

end
